theory Spec2Isabelle
  imports Main "HOL-Library.Word" "HOL-Library.Sublist"
begin

section \<open>Data model\<close>

text \<open>
  An entity is an opaque 64-bit identifier (\<^verbatim>\<open>using Entity = uint64_t\<close>).  The
  entity-component manager owns one storage per component kind; a storage maps an
  entity to the component of that kind attached to it, if any.  \<^verbatim>\<open>Component<K>(e)\<close>
  is the lookup in the storage of kind \<^verbatim>\<open>K\<close>, the null pointer being \<open>None\<close>.
  The type \<open>'d\<close> stands for \<^verbatim>\<open>double\<close>, \<open>'a\<close> for the payload of an
  \<^verbatim>\<open>Altimeter\<close> component (an sdf element).
\<close>

type_synonym Entity = "64 word"

record 'd Vector3d =
  X :: 'd
  Y :: 'd
  Z :: 'd

record 'd Quaterniond =
  Qw :: 'd
  Qx :: 'd
  Qy :: 'd
  Qz :: 'd

record 'd Pose3d =
  Pos :: "'d Vector3d"
  Rot :: "'d Quaterniond"

record ('d, 'a) EntityComponentManager =
  entities :: "Entity list"
  Name :: "Entity \<rightharpoonup> string"
  ParentEntity :: "Entity \<rightharpoonup> Entity"
  World :: "Entity \<rightharpoonup> unit"
  Pose :: "Entity \<rightharpoonup> 'd Pose3d"
  WorldPose :: "Entity \<rightharpoonup> 'd Pose3d"
  WorldLinearVelocity :: "Entity \<rightharpoonup> 'd Vector3d"
  Altimeter :: "Entity \<rightharpoonup> 'a"

text \<open>
  \<^verbatim>\<open>UpdateInfo\<close>: the times are \<^verbatim>\<open>std::chrono\<close> durations, compared as
  signed tick counts.
\<close>

record UpdateInfo =
  simTime :: int
  realTime :: int
  dt :: int
  iterations :: nat
  paused :: bool

text \<open>What a hook writes to the console: \<^verbatim>\<open>ignerr\<close>, \<^verbatim>\<open>ignwarn\<close>,
  \<^verbatim>\<open>ignmsg\<close>, \<^verbatim>\<open>igndbg\<close>.  A line is kept without its line ends.\<close>

datatype console = Err string | Warn string | Msg string | Dbg string

fun is_Err :: "console \<Rightarrow> bool" where
  "is_Err (Err _) = True"
| "is_Err _ = False"

section \<open>Log playback\<close>

subsection \<open>State\<close>

text \<open>
  A recorded message carries the time it was received, its type name and its payload
  bytes.  The batch is the recorded sequence; the iterator is a position in it, and
  \<^verbatim>\<open>batch.end()\<close> is the position past the last message.  A default-constructed
  batch is empty and a default-constructed iterator equals its end.
\<close>

record Message =
  TimeReceived :: int
  Type :: string
  Data :: string

record LogPlaybackPrivate =
  batch :: "Message list"
  iter :: nat
  printedEnd :: bool

definition LogPlaybackPrivate_init :: LogPlaybackPrivate where
  "LogPlaybackPrivate_init = \<lparr>batch = [], iter = 0, printedEnd = False\<rparr>"

text \<open>The messages from the iterator on; the iterator is at the end iff there are none.\<close>

definition remaining :: "LogPlaybackPrivate \<Rightarrow> Message list" where
  "remaining s = drop (iter s) (batch s)"

text \<open>
  A decoded \<^verbatim>\<open>msgs::Pose\<close>: the entity id it names and the recorded pose, as
  \<^verbatim>\<open>msgs::Convert\<close> reads it.
\<close>

record 'd msgs_Pose =
  pose_id :: Entity
  pose_data :: "'d Pose3d"

text \<open>
  The collaborators that are not part of the playback system: the protobuf decoders of
  the two message kinds and the manager's \<^verbatim>\<open>SetState\<close>.
\<close>

record ('d, 'a, 'st) playback_deps =
  ParsePose_V :: "string \<Rightarrow> 'd msgs_Pose list"
  ParseState :: "string \<Rightarrow> 'st"
  SetState :: "'st \<Rightarrow> ('d, 'a) EntityComponentManager \<Rightarrow> ('d, 'a) EntityComponentManager"

subsection \<open>ParsePoseV\<close>

text \<open>The loop filling \<^verbatim>\<open>idToPose\<close> with \<^verbatim>\<open>insert_or_assign\<close>: a later pose of the
  same id replaces an earlier one.\<close>

fun idToPose_fill :: "(Entity \<rightharpoonup> 'd msgs_Pose) \<Rightarrow> 'd msgs_Pose list
    \<Rightarrow> (Entity \<rightharpoonup> 'd msgs_Pose)" where
  "idToPose_fill m [] = m"
| "idToPose_fill m (p # ps) = idToPose_fill (m(pose_id p \<mapsto> p)) ps"

text \<open>The visitor of \<^verbatim>\<open>Each<components::Pose>\<close>, called on an entity that has a
  pose component.\<close>

definition pose_visitor :: "(Entity \<rightharpoonup> 'd msgs_Pose) \<Rightarrow> Entity
    \<Rightarrow> ('d, 'a) EntityComponentManager \<Rightarrow> ('d, 'a) EntityComponentManager" where
  "pose_visitor idToPose e ecm =
     (case idToPose e of
        None \<Rightarrow> ecm
      | Some pose \<Rightarrow> ecm\<lparr>Pose := (Pose ecm)(e \<mapsto> pose_data pose)\<rparr>)"

text \<open>\<^verbatim>\<open>Each<components::Pose>\<close>: the visitor runs on every entity of the manager
  that has a pose component.\<close>

fun Each_Pose :: "(Entity \<Rightarrow> ('d, 'a) EntityComponentManager \<Rightarrow> ('d, 'a) EntityComponentManager)
    \<Rightarrow> Entity list \<Rightarrow> ('d, 'a) EntityComponentManager \<Rightarrow> ('d, 'a) EntityComponentManager" where
  "Each_Pose f [] ecm = ecm"
| "Each_Pose f (e # es) ecm =
     (if Pose ecm e \<noteq> None then Each_Pose f es (f e ecm) else Each_Pose f es ecm)"

definition ParsePoseV :: "('d, 'a, 'st) playback_deps \<Rightarrow> Message
    \<Rightarrow> ('d, 'a) EntityComponentManager \<Rightarrow> ('d, 'a) EntityComponentManager" where
  "ParsePoseV deps m ecm =
     (let posevMsg = ParsePose_V deps (Data m);
          idToPose = idToPose_fill Map.empty posevMsg
      in Each_Pose (pose_visitor idToPose) (entities ecm) ecm)"

definition ParseSerializedState :: "('d, 'a, 'st) playback_deps \<Rightarrow> Message
    \<Rightarrow> ('d, 'a) EntityComponentManager \<Rightarrow> ('d, 'a) EntityComponentManager" where
  "ParseSerializedState deps m ecm = SetState deps (ParseState deps (Data m)) ecm"

subsection \<open>Update\<close>

text \<open>The result of a hook: the system's state, the manager and the console lines
  written, in order.\<close>

type_synonym ('d, 'a) playback_result =
  "LogPlaybackPrivate \<times> ('d, 'a) EntityComponentManager \<times> console list"

definition finished :: console where
  "finished = Msg ''Finished playing all recorded data''"

definition Update :: "('d, 'a, 'st) playback_deps \<Rightarrow> UpdateInfo \<Rightarrow> LogPlaybackPrivate
    \<Rightarrow> ('d, 'a) EntityComponentManager \<Rightarrow> ('d, 'a) playback_result" where
  "Update deps info s ecm =
     (if paused info then (s, ecm, [])
      else case remaining s of
        [] \<Rightarrow>
          (if \<not> printedEnd s
           then (s\<lparr>printedEnd := True\<rparr>, ecm, [finished])
           else (s, ecm, []))
      | m # _ \<Rightarrow>
          (if simTime info < TimeReceived m then (s, ecm, [])
           else if Type m = ''ignition.msgs.Pose_V''
             then (s\<lparr>iter := iter s + 1\<rparr>, ParsePoseV deps m ecm, [])
           else if Type m = ''ignition.msgs.SerializedState''
             then (s\<lparr>iter := iter s + 1\<rparr>, ParseSerializedState deps m ecm, [])
           else (s\<lparr>iter := iter s + 1\<rparr>, ecm,
                 [Warn (''Trying to playback unsupported message type ['' @ Type m @ '']'')])))"

text \<open>A run of ticks: \<open>Update\<close> on each tick's info in turn, the console lines
  concatenated.\<close>

fun Updates :: "('d, 'a, 'st) playback_deps \<Rightarrow> UpdateInfo list \<Rightarrow> LogPlaybackPrivate
    \<Rightarrow> ('d, 'a) EntityComponentManager \<Rightarrow> ('d, 'a) playback_result" where
  "Updates deps [] s ecm = (s, ecm, [])"
| "Updates deps (info # infos) s ecm =
     (case Update deps info s ecm of
        (s', ecm', out) \<Rightarrow>
          (case Updates deps infos s' ecm' of
             (s'', ecm'', out') \<Rightarrow> (s'', ecm'', out @ out')))"

subsection \<open>The scene description\<close>

text \<open>
  An sdf element has a name, attributes and child elements.  A world of a loaded
  description has its element and the models and lights parsed from it.
\<close>

datatype Element =
  Element (elt_name: string) (elt_attributes: "(string \<times> string) list") (elt_children: "Element list")

definition HasAttribute :: "Element \<Rightarrow> string \<Rightarrow> bool" where
  "HasAttribute e k = (map_of (elt_attributes e) k \<noteq> None)"

definition GetAttribute :: "Element \<Rightarrow> string \<Rightarrow> string option" where
  "GetAttribute e k = map_of (elt_attributes e) k"

record ('mdl, 'lgt) sdf_World =
  world_Element :: Element
  world_Models :: "'mdl list"
  world_Lights :: "'lgt list"

text \<open>What \<^verbatim>\<open>sdf::Root::Load\<close> gives: the number of errors and the worlds.\<close>

record ('mdl, 'lgt) sdf_Root =
  load_errors :: nat
  worlds :: "('mdl, 'lgt) sdf_World list"

text \<open>\<^verbatim>\<open>std::string::find\<close>: the first position at which the needle occurs,
  \<open>None\<close> for \<^verbatim>\<open>npos\<close>.\<close>

fun str_find :: "string \<Rightarrow> string \<Rightarrow> nat option" where
  "str_find [] n = (if n = [] then Some 0 else None)"
| "str_find (c # cs) n =
     (if prefix n (c # cs) then Some 0 else map_option Suc (str_find cs n))"

text \<open>The test of the loop body on a plugin element: it has a \<^verbatim>\<open>name\<close> attribute in
  which \<^verbatim>\<open>LogRecord\<close> or \<^verbatim>\<open>Physics\<close> is found.\<close>

definition flagged :: "Element \<Rightarrow> bool" where
  "flagged pluginElt =
     (HasAttribute pluginElt ''name'' \<and>
      (case GetAttribute pluginElt ''name'' of
         None \<Rightarrow> False
       | Some n \<Rightarrow> str_find n ''LogRecord'' \<noteq> None \<or> str_find n ''Physics'' \<noteq> None))"

text \<open>
  The loop over the world's \<^verbatim>\<open>plugin\<close> children (\<^verbatim>\<open>GetElement\<close>, then
  \<^verbatim>\<open>GetNextElement\<close> until null).  An element pointer is the position of the child; the
  loop collects the positions flagged for removal.
\<close>

fun plugins_walk :: "nat \<Rightarrow> Element list \<Rightarrow> nat list" where
  "plugins_walk i [] = []"
| "plugins_walk i (c # cs) =
     (if elt_name c = ''plugin'' \<and> flagged c then i # plugins_walk (Suc i) cs
      else plugins_walk (Suc i) cs)"

definition pluginsRm :: "Element \<Rightarrow> nat list" where
  "pluginsRm world = plugins_walk 0 (elt_children world)"

text \<open>\<^verbatim>\<open>RemoveFromParent\<close> on every marked child: the children at the marked positions
  leave the world element.\<close>

fun drop_marked :: "nat list \<Rightarrow> nat \<Rightarrow> Element list \<Rightarrow> Element list" where
  "drop_marked rm i [] = []"
| "drop_marked rm i (c # cs) =
     (if i \<in> set rm then drop_marked rm (Suc i) cs else c # drop_marked rm (Suc i) cs)"

definition remove_plugins :: "Element \<Rightarrow> Element" where
  "remove_plugins world =
     Element (elt_name world) (elt_attributes world)
       (drop_marked (pluginsRm world) 0 (elt_children world))"

definition removed_names :: "Element \<Rightarrow> string list" where
  "removed_names world =
     map (\<lambda>i. case GetAttribute (elt_children world ! i) ''name'' of None \<Rightarrow> [] | Some n \<Rightarrow> n)
       (pluginsRm world)"

subsection \<open>Configure\<close>

datatype event = LoadPlugins Entity Element

text \<open>
  What Configure reaches outside the system: the file system, the sdf loader, the entity
  creator and the transport log.  \<open>Log_QueryMessages env p\<close> is the batch that
  \<^verbatim>\<open>QueryMessages\<close> returns on the log object after \<^verbatim>\<open>Open(p)\<close>, whatever
  \<^verbatim>\<open>Open\<close> returned.
\<close>

record ('d, 'a, 'mdl, 'lgt) configure_env =
  isDirectory :: "string \<Rightarrow> bool"
  exists :: "string \<Rightarrow> bool"
  joinPaths :: "string \<Rightarrow> string \<Rightarrow> string"
  Root_Load :: "string \<Rightarrow> ('mdl, 'lgt) sdf_Root"
  CreateEntities_Model :: "'mdl \<Rightarrow> ('d, 'a) EntityComponentManager
      \<Rightarrow> Entity \<times> ('d, 'a) EntityComponentManager"
  CreateEntities_Light :: "'lgt \<Rightarrow> ('d, 'a) EntityComponentManager
      \<Rightarrow> Entity \<times> ('d, 'a) EntityComponentManager"
  SetParent :: "Entity \<Rightarrow> Entity \<Rightarrow> ('d, 'a) EntityComponentManager
      \<Rightarrow> ('d, 'a) EntityComponentManager"
  Log_Open :: "string \<Rightarrow> bool"
  Log_QueryMessages :: "string \<Rightarrow> Message list"

text \<open>The two creation loops: every model, then every light, is created and parented
  to the world entity.\<close>

fun create_all :: "('x \<Rightarrow> ('d, 'a) EntityComponentManager \<Rightarrow> Entity \<times> ('d, 'a) EntityComponentManager)
    \<Rightarrow> (Entity \<Rightarrow> Entity \<Rightarrow> ('d, 'a) EntityComponentManager \<Rightarrow> ('d, 'a) EntityComponentManager)
    \<Rightarrow> Entity \<Rightarrow> 'x list \<Rightarrow> ('d, 'a) EntityComponentManager
    \<Rightarrow> ('d, 'a) EntityComponentManager" where
  "create_all create setp worldEntity [] ecm = ecm"
| "create_all create setp worldEntity (x # xs) ecm =
     (case create x ecm of
        (newEntity, ecm') \<Rightarrow> create_all create setp worldEntity xs (setp newEntity worldEntity ecm'))"

definition console_of :: "'s \<times> 'e \<times> console list \<times> event list \<Rightarrow> console list" where
  "console_of r = fst (snd (snd r))"

definition events_of :: "'s \<times> 'e \<times> console list \<times> event list \<Rightarrow> event list" where
  "events_of r = snd (snd (snd r))"

text \<open>The result of Configure: the system's state, the manager, the console lines and
  the events emitted.  The argument \<open>logPath\<close> is the \<^verbatim>\<open>path\<close> read from the
  plugin's configuration, empty when it has none.\<close>

definition Configure :: "('d, 'a, 'mdl, 'lgt) configure_env \<Rightarrow> Entity \<Rightarrow> string
    \<Rightarrow> LogPlaybackPrivate \<Rightarrow> ('d, 'a) EntityComponentManager
    \<Rightarrow> LogPlaybackPrivate \<times> ('d, 'a) EntityComponentManager \<times> console list \<times> event list" where
  "Configure env worldEntity logPath s ecm =
     (if logPath = [] then
        (s, ecm, [Err ''Unspecified log path to playback. Nothing to play.''], [])
      else if \<not> isDirectory env logPath then
        (s, ecm, [Err (''Specified log path ['' @ logPath @ ''] must be a directory.'')], [])
      else
        let dbPath = joinPaths env logPath ''state.tlog'';
            sdfPath = joinPaths env logPath ''state.sdf''
        in
        if \<not> exists env dbPath \<or> \<not> exists env sdfPath then
          (s, ecm,
           [Err (''Log path invalid. File(s) ['' @ dbPath @ ''] / ['' @ sdfPath
                 @ ''] do not exist. Nothing to play.'')], [])
        else
          let loading = Msg (''Loading log files:* '' @ dbPath @ ''* '' @ sdfPath);
              root = Root_Load env sdfPath
          in
          if load_errors root \<noteq> 0 \<or> length (worlds root) \<le> 0 then
            (s, ecm, [loading, Err (''Error loading SDF file ['' @ sdfPath @ '']'')], [])
          else
            let sdfWorld = hd (worlds root);
                removed = map (\<lambda>n. Dbg (''Removed '' @ n @ '' plugin from loaded SDF''))
                            (removed_names (world_Element sdfWorld));
                element = remove_plugins (world_Element sdfWorld);
                ecm1 = create_all (CreateEntities_Model env) (SetParent env) worldEntity
                         (world_Models sdfWorld) ecm;
                ecm2 = create_all (CreateEntities_Light env) (SetParent env) worldEntity
                         (world_Lights sdfWorld) ecm1;
                opened = (if \<not> Log_Open env dbPath
                          then [Err (''Failed to open log file ['' @ dbPath @ '']'')] else []);
                msgs = Log_QueryMessages env dbPath;
                empty = (if msgs = []
                         then [Err (''No messages found in log file ['' @ dbPath @ '']'')] else [])
            in (s\<lparr>batch := msgs, iter := 0\<rparr>, ecm2, loading # removed @ opened @ empty,
                [LoadPlugins worldEntity element]))"

section \<open>Double precision\<close>

text \<open>
  A \<^verbatim>\<open>double\<close> is an IEEE 754 binary64 number: \<open>Finite m e\<close> is the number
  \<open>m * 2 ^ e\<close>, with a mantissa of at most 53 bits and an exponent from \<open>-1074\<close> to
  \<open>971\<close>; the sign of a zero is not kept, \<^verbatim>\<open>==\<close>, \<^verbatim>\<open>+\<close> and \<^verbatim>\<open>-\<close> do not depend on it
  but for the sign of a zero result.  One number has several such pairs; \<open>double_eq\<close>,
  the \<^verbatim>\<open>==\<close> of the language, compares the numbers.
\<close>

datatype double = Finite (mantissa: int) (exponent: int) | Infinity (negative: bool) | NaN

text \<open>The finite doubles, and the number of a finite double counted in units of
  \<open>2 ^ - 1074\<close>, the smallest positive double: an integer that does not depend on the
  pair the number is written with.\<close>

definition finite_double :: "double \<Rightarrow> bool" where
  "finite_double d =
     (case d of Finite m e \<Rightarrow> \<bar>m\<bar> < 2 ^ 53 \<and> - 1074 \<le> e \<and> e \<le> 971 | _ \<Rightarrow> False)"

fun scaled :: "double \<Rightarrow> int" where
  "scaled (Finite m e) = m * 2 ^ nat (e + 1074)"
| "scaled d = 0"

text \<open>The number of low bits a natural number has beyond 53.\<close>

function excess :: "nat \<Rightarrow> nat" where
  "excess n = (if n < 2 ^ 53 then 0 else Suc (excess (n div 2)))"
  by pat_completeness auto
termination
  by (relation "measure (\<lambda>n. n)") auto

declare excess.simps [simp del]

text \<open>
  Rounding the exact number \<open>M * 2 ^ E\<close> to the nearest double, ties to the even
  mantissa, overflowing to an infinity.  The exponent \<open>E\<close> is at least \<open>-1074\<close>
  wherever this is used, so nothing is lost at the small end.
\<close>

definition round_nearest_even :: "int \<Rightarrow> int \<Rightarrow> double" where
  "round_nearest_even M E =
     (let n = nat \<bar>M\<bar>;
          k = excess n;
          q = n div 2 ^ k;
          r = n mod 2 ^ k;
          q' = (if 2 ^ k < 2 * r \<or> (2 * r = 2 ^ k \<and> odd q) then q + 1 else q);
          m = (if q' = 2 ^ 53 then 2 ^ 52 else q');
          e = (if q' = 2 ^ 53 then E + int k + 1 else E + int k)
      in if 971 < e then Infinity (M < 0) else Finite (sgn M * int m) e)"

fun double_neg :: "double \<Rightarrow> double" where
  "double_neg (Finite m e) = Finite (- m) e"
| "double_neg (Infinity s) = Infinity (\<not> s)"
| "double_neg NaN = NaN"

fun double_add :: "double \<Rightarrow> double \<Rightarrow> double" where
  "double_add (Finite m1 e1) (Finite m2 e2) =
     (let e = min e1 e2
      in round_nearest_even (m1 * 2 ^ nat (e1 - e) + m2 * 2 ^ nat (e2 - e)) e)"
| "double_add (Finite m e) (Infinity s) = Infinity s"
| "double_add (Infinity s) (Finite m e) = Infinity s"
| "double_add (Infinity s) (Infinity t) = (if s = t then Infinity s else NaN)"
| "double_add NaN b = NaN"
| "double_add a NaN = NaN"

definition double_sub :: "double \<Rightarrow> double \<Rightarrow> double" where
  "double_sub a b = double_add a (double_neg b)"

fun double_eq :: "double \<Rightarrow> double \<Rightarrow> bool" where
  "double_eq (Finite m1 e1) (Finite m2 e2) =
     (let e = min e1 e2 in m1 * 2 ^ nat (e1 - e) = m2 * 2 ^ nat (e2 - e))"
| "double_eq (Infinity s) (Infinity t) = (s = t)"
| "double_eq a b = False"

definition double_zero :: double where
  "double_zero = Finite 0 0"

section \<open>Altimeter\<close>

subsection \<open>The topic resolver\<close>

text \<open>
  A call either returns or dereferences a null pointer, which the language leaves
  undefined; the model stops there.  A call that does not return at all is \<open>None\<close>.
\<close>

datatype 'r outcome = Returns 'r | NullDereference

text \<open>The loop of DefaultTopic; \<open>p\<close> is the pointer to a ParentEntity component, null
  when \<open>None\<close>, and \<open>p->Data()\<close> the entity it names.\<close>

partial_function (option) topic_loop :: "('d, 'a) EntityComponentManager \<Rightarrow> Entity option
    \<Rightarrow> string \<Rightarrow> string outcome option" where
  "topic_loop ecm p topic =
     (case p of
        None \<Rightarrow> Some (Returns topic)
      | Some parent \<Rightarrow>
          if World ecm parent \<noteq> None then Some (Returns topic)
          else (case Name ecm parent of
                  None \<Rightarrow> Some NullDereference
                | Some modelName \<Rightarrow>
                    topic_loop ecm (ParentEntity ecm parent) (''/model/'' @ modelName @ topic)))"

definition DefaultTopic :: "('d, 'a) EntityComponentManager \<Rightarrow> Entity \<Rightarrow> string outcome option" where
  "DefaultTopic ecm entity =
     (case Name ecm entity of
        None \<Rightarrow> Some NullDereference
      | Some sensorName \<Rightarrow>
          (case ParentEntity ecm entity of
             None \<Rightarrow> Some NullDereference
           | Some parent \<Rightarrow>
               (case Name ecm parent of
                  None \<Rightarrow> Some NullDereference
                | Some linkName \<Rightarrow>
                    topic_loop ecm (ParentEntity ecm parent)
                      (''/link/'' @ linkName @ ''/sensor/'' @ sensorName @ ''/altimeter''))))"

subsection \<open>The sensor\<close>

record AltimeterSensor =
  topic :: string
  verticalPosition :: double
  verticalVelocity :: double
  verticalReference :: double
  pub :: bool

definition AltimeterSensor_init :: AltimeterSensor where
  "AltimeterSensor_init = \<lparr>topic = [], verticalPosition = double_zero,
     verticalVelocity = double_zero, verticalReference = double_zero, pub = False\<rparr>"

text \<open>What Load reads of the sensor's sdf element: \<^verbatim>\<open>HasElement("topic")\<close> and
  \<^verbatim>\<open>Get<std::string>("topic")\<close>.\<close>

record altimeter_sdf =
  HasElement_topic :: bool
  Get_topic :: string

definition Load :: "altimeter_sdf \<Rightarrow> AltimeterSensor \<Rightarrow> AltimeterSensor" where
  "Load sdf this = (if HasElement_topic sdf then this\<lparr>topic := Get_topic sdf\<rparr> else this)"

text \<open>A message on the transport: the topic and the three fields of
  \<^verbatim>\<open>msgs::Altimeter\<close>.\<close>

record published =
  on_topic :: string
  vertical_position :: double
  vertical_velocity :: double
  vertical_reference :: double

definition Publish :: "AltimeterSensor \<Rightarrow> AltimeterSensor \<times> console list \<times> published list" where
  "Publish this =
     (if topic this = [] then (this, [], [])
      else
        (if \<not> pub this then this\<lparr>pub := True\<rparr> else this,
         if \<not> pub this
           then [Msg (''Altimeter publishing messages on ['' @ topic this @ '']'')] else [],
         [\<lparr>on_topic = topic this, vertical_position = verticalPosition this,
           vertical_velocity = verticalVelocity this,
           vertical_reference = verticalReference this\<rparr>]))"

subsection \<open>The system\<close>

text \<open>
  The sensor map is a \<^verbatim>\<open>std::unordered_map\<close>: a map from entities to sensors, with
  no order of its own.  \<^verbatim>\<open>find\<close> is the lookup, and an assignment through the iterator it
  returns replaces the sensor of the key.
\<close>

record AltimeterPrivate =
  initialized :: bool
  entitySensorMap :: "Entity \<rightharpoonup> AltimeterSensor"

definition AltimeterPrivate_init :: AltimeterPrivate where
  "AltimeterPrivate_init = \<lparr>initialized = False, entitySensorMap = Map.empty\<rparr>"

text \<open>\<^verbatim>\<open>insert\<close> on the map: nothing happens when the key is there.\<close>

definition map_insert :: "Entity \<Rightarrow> AltimeterSensor \<Rightarrow> (Entity \<rightharpoonup> AltimeterSensor)
    \<Rightarrow> (Entity \<rightharpoonup> AltimeterSensor)" where
  "map_insert e sensor m = (if m e \<noteq> None then m else m(e \<mapsto> sensor))"

text \<open>
  The visitor of CreateAltimeterEntities on an entity with an Altimeter component.  The
  world pose helper is not part of the system; \<open>worldPose\<close> stands for it.
\<close>

definition create_visitor :: "(Entity \<Rightarrow> (double, altimeter_sdf) EntityComponentManager \<Rightarrow> double Pose3d)
    \<Rightarrow> (double, altimeter_sdf) EntityComponentManager \<Rightarrow> Entity \<Rightarrow> altimeter_sdf
    \<Rightarrow> (Entity \<rightharpoonup> AltimeterSensor) \<Rightarrow> (Entity \<rightharpoonup> AltimeterSensor) outcome option" where
  "create_visitor worldPose ecm e altimeter m =
     (let reference = Z (Pos (worldPose e ecm));
          sensor = (Load altimeter AltimeterSensor_init)\<lparr>verticalReference := reference\<rparr>
      in if topic sensor = []
         then (case DefaultTopic ecm e of
                 None \<Rightarrow> None
               | Some NullDereference \<Rightarrow> Some NullDereference
               | Some (Returns t) \<Rightarrow> Some (Returns (map_insert e (sensor\<lparr>topic := t\<rparr>) m)))
         else Some (Returns (map_insert e sensor m)))"

fun CreateAltimeterEntities_loop :: "(Entity \<Rightarrow> (double, altimeter_sdf) EntityComponentManager \<Rightarrow> double Pose3d)
    \<Rightarrow> (double, altimeter_sdf) EntityComponentManager \<Rightarrow> Entity list
    \<Rightarrow> (Entity \<rightharpoonup> AltimeterSensor) \<Rightarrow> (Entity \<rightharpoonup> AltimeterSensor) outcome option" where
  "CreateAltimeterEntities_loop worldPose ecm [] m = Some (Returns m)"
| "CreateAltimeterEntities_loop worldPose ecm (e # es) m =
     (case Altimeter ecm e of
        None \<Rightarrow> CreateAltimeterEntities_loop worldPose ecm es m
      | Some altimeter \<Rightarrow>
          (case create_visitor worldPose ecm e altimeter m of
             None \<Rightarrow> None
           | Some NullDereference \<Rightarrow> Some NullDereference
           | Some (Returns m') \<Rightarrow> CreateAltimeterEntities_loop worldPose ecm es m'))"

definition CreateAltimeterEntities :: "(Entity \<Rightarrow> (double, altimeter_sdf) EntityComponentManager \<Rightarrow> double Pose3d)
    \<Rightarrow> (double, altimeter_sdf) EntityComponentManager \<Rightarrow> AltimeterPrivate
    \<Rightarrow> AltimeterPrivate outcome option" where
  "CreateAltimeterEntities worldPose ecm this =
     (case CreateAltimeterEntities_loop worldPose ecm (entities ecm) (entitySensorMap this) of
        None \<Rightarrow> None
      | Some NullDereference \<Rightarrow> Some NullDereference
      | Some (Returns m) \<Rightarrow> Some (Returns (this\<lparr>entitySensorMap := m\<rparr>)))"

definition PreUpdate :: "(Entity \<Rightarrow> (double, altimeter_sdf) EntityComponentManager \<Rightarrow> double Pose3d)
    \<Rightarrow> (double, altimeter_sdf) EntityComponentManager \<Rightarrow> AltimeterPrivate
    \<Rightarrow> AltimeterPrivate outcome option" where
  "PreUpdate worldPose ecm this =
     (if \<not> initialized this
      then (case CreateAltimeterEntities worldPose ecm this of
              None \<Rightarrow> None
            | Some NullDereference \<Rightarrow> Some NullDereference
            | Some (Returns this') \<Rightarrow> Some (Returns (this'\<lparr>initialized := True\<rparr>)))
      else Some (Returns this))"

text \<open>The decimal digits of an entity, as the stream prints it.\<close>

function decimal :: "nat \<Rightarrow> string" where
  "decimal n = (if n < 10 then [char_of (48 + n)] else decimal (n div 10) @ [char_of (48 + n mod 10)])"
  by pat_completeness auto
termination
  by (relation "measure (\<lambda>n. n)") auto

declare decimal.simps [simp del]

text \<open>The visitor of UpdateAltimeters on an entity with the three components.\<close>

definition update_visitor :: "Entity \<Rightarrow> double Pose3d \<Rightarrow> double Vector3d
    \<Rightarrow> (Entity \<rightharpoonup> AltimeterSensor) \<Rightarrow> (Entity \<rightharpoonup> AltimeterSensor) \<times> console list" where
  "update_visitor e worldPose worldLinearVel m =
     (case m e of
        Some sensor \<Rightarrow>
          (let pos = double_sub (Z (Pos worldPose)) (verticalReference sensor);
               vel = Z worldLinearVel
           in (m(e \<mapsto> sensor\<lparr>verticalPosition := pos, verticalVelocity := vel\<rparr>), []))
      | None \<Rightarrow>
          (m, [Err (''Failed to update altimeter: '' @ decimal (unat e) @ ''. Entity not found.'')]))"

fun UpdateAltimeters_loop :: "('d, 'a) EntityComponentManager
    \<Rightarrow> (Entity \<Rightarrow> 'd Pose3d \<Rightarrow> 'd Vector3d \<Rightarrow> 'm \<Rightarrow> 'm \<times> console list)
    \<Rightarrow> Entity list \<Rightarrow> 'm \<Rightarrow> 'm \<times> console list" where
  "UpdateAltimeters_loop ecm f [] m = (m, [])"
| "UpdateAltimeters_loop ecm f (e # es) m =
     (case (Altimeter ecm e, WorldPose ecm e, WorldLinearVelocity ecm e) of
        (Some altimeter, Some worldPose, Some worldLinearVel) \<Rightarrow>
          (case f e worldPose worldLinearVel m of
             (m', out) \<Rightarrow>
               (case UpdateAltimeters_loop ecm f es m' of (m'', out') \<Rightarrow> (m'', out @ out')))
      | _ \<Rightarrow> UpdateAltimeters_loop ecm f es m)"

definition UpdateAltimeters :: "(double, 'a) EntityComponentManager \<Rightarrow> AltimeterPrivate
    \<Rightarrow> AltimeterPrivate \<times> console list" where
  "UpdateAltimeters ecm this =
     (case UpdateAltimeters_loop ecm update_visitor (entities ecm) (entitySensorMap this) of
        (m, out) \<Rightarrow> (this\<lparr>entitySensorMap := m\<rparr>, out))"

text \<open>
  The loop of PostUpdate that publishes every sensor of the map.  The order in which an
  unordered map iterates its entries is the implementation's and may change with every
  insertion; the loop is given it as \<open>order\<close>, the keys in the order of this iteration.
\<close>

fun Publish_all :: "Entity list \<Rightarrow> (Entity \<rightharpoonup> AltimeterSensor)
    \<Rightarrow> (Entity \<rightharpoonup> AltimeterSensor) \<times> console list \<times> published list" where
  "Publish_all [] m = (m, [], [])"
| "Publish_all (k # ks) m =
     (case m k of
        None \<Rightarrow> Publish_all ks m
      | Some sensor \<Rightarrow>
          (case Publish sensor of
             (sensor', out, msgs) \<Rightarrow>
               (case Publish_all ks (m(k \<mapsto> sensor')) of
                  (m', out', msgs') \<Rightarrow> (m', out @ out', msgs @ msgs'))))"

definition PostUpdate :: "Entity list \<Rightarrow> UpdateInfo \<Rightarrow> (double, 'a) EntityComponentManager
    \<Rightarrow> AltimeterPrivate \<Rightarrow> AltimeterPrivate \<times> console list \<times> published list" where
  "PostUpdate order info ecm this =
     (if paused info then (this, [], [])
      else
        (case UpdateAltimeters ecm this of
           (this', out) \<Rightarrow>
             (case Publish_all order (entitySensorMap this') of
                (m, out', msgs) \<Rightarrow> (this'\<lparr>entitySensorMap := m\<rparr>, out @ out', msgs))))"

text \<open>An iteration of a map visits every key once.\<close>

definition iterates :: "Entity list \<Rightarrow> (Entity \<rightharpoonup> AltimeterSensor) \<Rightarrow> bool" where
  "iterates order m = (distinct order \<and> set order = dom m)"

section \<open>Vocabulary of the specification\<close>

text \<open>The pose a pose-vector message records for an entity: the last one in the message
  that names it.\<close>

definition recorded :: "'d msgs_Pose list \<Rightarrow> Entity \<Rightarrow> 'd msgs_Pose option" where
  "recorded ps e = List.find (\<lambda>p. pose_id p = e) (rev ps)"

text \<open>A plugin declaration whose name attribute contains \<^verbatim>\<open>LogRecord\<close> or
  \<^verbatim>\<open>Physics\<close> as a substring.\<close>

definition spec_removed :: "Element \<Rightarrow> bool" where
  "spec_removed c =
     (elt_name c = ''plugin'' \<and>
      (case GetAttribute c ''name'' of
         None \<Rightarrow> False
       | Some n \<Rightarrow> sublist ''LogRecord'' n \<or> sublist ''Physics'' n))"

text \<open>The elements below an element, at any depth.\<close>

fun descendants :: "Element \<Rightarrow> Element list" where
  "descendants (Element n as cs) = concat (map (\<lambda>c. c # descendants c) cs)"

text \<open>Configure passes every check on the path, the two files and the scene description,
  and so gets to the plugins and to the log.\<close>

definition reaches_log :: "('d, 'a, 'mdl, 'lgt) configure_env \<Rightarrow> string \<Rightarrow> bool" where
  "reaches_log env logPath =
     (logPath \<noteq> [] \<and> isDirectory env logPath \<and>
      exists env (joinPaths env logPath ''state.tlog'') \<and>
      exists env (joinPaths env logPath ''state.sdf'') \<and>
      load_errors (Root_Load env (joinPaths env logPath ''state.sdf'')) = 0 \<and>
      worlds (Root_Load env (joinPaths env logPath ''state.sdf'')) \<noteq> [])"

text \<open>A configuration error: a check fails, the log cannot be opened, or it is empty.\<close>

definition config_error :: "('d, 'a, 'mdl, 'lgt) configure_env \<Rightarrow> string \<Rightarrow> bool" where
  "config_error env logPath =
     (\<not> reaches_log env logPath \<or>
      \<not> Log_Open env (joinPaths env logPath ''state.tlog'') \<or>
      Log_QueryMessages env (joinPaths env logPath ''state.tlog'') = [])"

text \<open>
  The names of the models above a link, innermost first: walking up from \<open>p\<close>, every
  entity met before the walk ends is not the world and has the next name of the list;
  the walk ends at the world or where there is no parent.
\<close>

fun models_above :: "('d, 'a) EntityComponentManager \<Rightarrow> Entity option \<Rightarrow> string list \<Rightarrow> bool" where
  "models_above ecm p [] = (case p of None \<Rightarrow> True | Some a \<Rightarrow> World ecm a \<noteq> None)"
| "models_above ecm p (n # ns) =
     (case p of
        None \<Rightarrow> False
      | Some a \<Rightarrow> World ecm a = None \<and> Name ecm a = Some n
                  \<and> models_above ecm (ParentEntity ecm a) ns)"

text \<open>The same walk when it ends at an entity that has no ParentEntity component and is
  not the world.\<close>

fun orphan_chain :: "('d, 'a) EntityComponentManager \<Rightarrow> Entity option \<Rightarrow> string list \<Rightarrow> bool" where
  "orphan_chain ecm p [] = (p = None)"
| "orphan_chain ecm p (n # ns) =
     (case p of
        None \<Rightarrow> False
      | Some a \<Rightarrow> World ecm a = None \<and> Name ecm a = Some n
                  \<and> orphan_chain ecm (ParentEntity ecm a) ns)"

text \<open>The model part of a topic, outermost model first.\<close>

definition model_prefix :: "string list \<Rightarrow> string" where
  "model_prefix ns = concat (map (\<lambda>n. ''/model/'' @ n) (rev ns))"

text \<open>The reading of a sensor from a world pose and a world linear velocity.\<close>

definition reading :: "double Pose3d \<Rightarrow> double Vector3d \<Rightarrow> AltimeterSensor \<Rightarrow> AltimeterSensor" where
  "reading worldPose worldLinearVel sensor =
     sensor\<lparr>verticalPosition := double_sub (Z (Pos worldPose)) (verticalReference sensor),
            verticalVelocity := Z worldLinearVel\<rparr>"

text \<open>The message a sensor publishes.\<close>

definition message_of :: "AltimeterSensor \<Rightarrow> published" where
  "message_of s = \<lparr>on_topic = topic s, vertical_position = verticalPosition s,
     vertical_velocity = verticalVelocity s, vertical_reference = verticalReference s\<rparr>"

text \<open>A finite double of magnitude at most \<open>2 ^ 1020\<close>: the difference and the sum of
  two of them do not overflow.\<close>

definition moderate :: "double \<Rightarrow> bool" where
  "moderate d = (finite_double d \<and> \<bar>scaled d\<bar> \<le> 2 ^ 2094)"

section \<open>Concrete instances\<close>

text \<open>
  Time is counted in nanoseconds.  The log holds a pose vector received at 1 s, a
  serialized state at 2 s and a message of a kind the playback does not know at 3 s.
  The pose vector names entity 2 twice, entity 9, which the manager lacks, and entity 3,
  which has no pose component.
\<close>

definition pose_at :: "int \<Rightarrow> int Pose3d" where
  "pose_at z = \<lparr>Pos = \<lparr>X = 0, Y = 0, Z = z\<rparr>, Rot = \<lparr>Qw = 1, Qx = 0, Qy = 0, Qz = 0\<rparr>\<rparr>"

definition ex_deps :: "(int, unit, int Pose3d) playback_deps" where
  "ex_deps = \<lparr>
     ParsePose_V = (\<lambda>bytes. if bytes = ''poses''
        then [\<lparr>pose_id = 2, pose_data = pose_at 7\<rparr>, \<lparr>pose_id = 9, pose_data = pose_at 8\<rparr>,
              \<lparr>pose_id = 3, pose_data = pose_at 6\<rparr>, \<lparr>pose_id = 2, pose_data = pose_at 5\<rparr>]
        else []),
     ParseState = (\<lambda>bytes. pose_at 3),
     SetState = (\<lambda>st ecm. ecm\<lparr>entities := entities ecm @ [4], Pose := (Pose ecm)(4 \<mapsto> st)\<rparr>)\<rparr>"

definition ex_ecm :: "(int, unit) EntityComponentManager" where
  "ex_ecm = \<lparr>entities = [1, 2, 3],
     Name = [1 \<mapsto> ''world'', 2 \<mapsto> ''box'', 3 \<mapsto> ''sun''],
     ParentEntity = [2 \<mapsto> 1, 3 \<mapsto> 1],
     World = [1 \<mapsto> ()],
     Pose = [2 \<mapsto> pose_at 0],
     WorldPose = Map.empty,
     WorldLinearVelocity = Map.empty,
     Altimeter = Map.empty\<rparr>"

definition ex_log :: "Message list" where
  "ex_log = [\<lparr>TimeReceived = 1000000000, Type = ''ignition.msgs.Pose_V'', Data = ''poses''\<rparr>,
             \<lparr>TimeReceived = 2000000000, Type = ''ignition.msgs.SerializedState'', Data = ''state''\<rparr>,
             \<lparr>TimeReceived = 3000000000, Type = ''ignition.msgs.Clock'', Data = ''clock''\<rparr>]"

definition ex_state :: "nat \<Rightarrow> LogPlaybackPrivate" where
  "ex_state i = \<lparr>batch = ex_log, iter = i, printedEnd = False\<rparr>"

definition tick :: "int \<Rightarrow> bool \<Rightarrow> UpdateInfo" where
  "tick t p = \<lparr>simTime = t, realTime = t, dt = 1000000, iterations = 1, paused = p\<rparr>"

text \<open>
  A recorded scene: the world has a model with a plugin of its own and four plugin
  declarations, one of them without a name.  The log directory is \<^verbatim>\<open>/logs\<close>.
\<close>

definition ex_world :: Element where
  "ex_world = Element ''world'' [(''name'', ''default'')]
     [Element ''plugin'' [(''filename'', ''libA.so''), (''name'', ''MyLogRecord'')] [],
      Element ''model'' [(''name'', ''PhysicsBox'')]
        [Element ''plugin'' [(''name'', ''WheelPhysics'')] []],
      Element ''plugin'' [(''name'', ''BulletPhysics'')] [],
      Element ''plugin'' [(''name'', ''KeyboardInput'')] [],
      Element ''plugin'' [(''filename'', ''libB.so'')] []]"

definition ex_env :: "(int, unit, string, string) configure_env" where
  "ex_env = \<lparr>
     isDirectory = (\<lambda>p. p = ''/logs''),
     exists = (\<lambda>p. p = ''/logs/state.tlog'' \<or> p = ''/logs/state.sdf''),
     joinPaths = (\<lambda>a b. a @ ''/'' @ b),
     Root_Load = (\<lambda>p. \<lparr>load_errors = 0,
        worlds = [\<lparr>world_Element = ex_world, world_Models = [''box''], world_Lights = [''sun'']\<rparr>]\<rparr>),
     CreateEntities_Model =
       (\<lambda>n ecm. (2, ecm\<lparr>entities := entities ecm @ [2], Name := (Name ecm)(2 \<mapsto> n)\<rparr>)),
     CreateEntities_Light =
       (\<lambda>n ecm. (3, ecm\<lparr>entities := entities ecm @ [3], Name := (Name ecm)(3 \<mapsto> n)\<rparr>)),
     SetParent = (\<lambda>c p ecm. ecm\<lparr>ParentEntity := (ParentEntity ecm)(c \<mapsto> p)\<rparr>),
     Log_Open = (\<lambda>p. True),
     Log_QueryMessages = (\<lambda>p. ex_log)\<rparr>"

text \<open>The same directory when \<^verbatim>\<open>state.tlog\<close> exists but cannot be opened.\<close>

definition ex_env_unopenable :: "(int, unit, string, string) configure_env" where
  "ex_env_unopenable = ex_env\<lparr>Log_Open := (\<lambda>p. False), Log_QueryMessages := (\<lambda>p. [])\<rparr>"

definition ex_world_ecm :: "(int, unit) EntityComponentManager" where
  "ex_world_ecm = \<lparr>entities = [1],
     Name = [1 \<mapsto> ''world''],
     ParentEntity = Map.empty,
     World = [1 \<mapsto> ()],
     Pose = Map.empty,
     WorldPose = Map.empty,
     WorldLinearVelocity = Map.empty,
     Altimeter = Map.empty\<rparr>"

text \<open>
  A robot: the altimeter \<^verbatim>\<open>alt0\<close> (entity 5) under the link \<^verbatim>\<open>arm\<close> under the model
  \<^verbatim>\<open>tool\<close> under the model \<^verbatim>\<open>robot\<close> under the world.  The doubles are those nearest
  to 0.1 and 5.
\<close>

definition d_0_1 :: double where
  "d_0_1 = Finite 3602879701896397 (- 55)"

definition d_5 :: double where
  "d_5 = Finite 5 0"

definition pose_z :: "double \<Rightarrow> double Pose3d" where
  "pose_z z = \<lparr>Pos = \<lparr>X = double_zero, Y = double_zero, Z = z\<rparr>,
     Rot = \<lparr>Qw = Finite 1 0, Qx = double_zero, Qy = double_zero, Qz = double_zero\<rparr>\<rparr>"

definition ex_robot :: "double \<Rightarrow> (double, altimeter_sdf) EntityComponentManager" where
  "ex_robot z = \<lparr>entities = [1, 2, 3, 4, 5],
     Name = [1 \<mapsto> ''world'', 2 \<mapsto> ''robot'', 3 \<mapsto> ''tool'', 4 \<mapsto> ''arm'', 5 \<mapsto> ''alt0''],
     ParentEntity = [2 \<mapsto> 1, 3 \<mapsto> 2, 4 \<mapsto> 3, 5 \<mapsto> 4],
     World = [1 \<mapsto> ()],
     Pose = Map.empty,
     WorldPose = [5 \<mapsto> pose_z z],
     WorldLinearVelocity = [5 \<mapsto> \<lparr>X = double_zero, Y = double_zero, Z = Finite 3 (- 1)\<rparr>],
     Altimeter = [5 \<mapsto> \<lparr>HasElement_topic = False, Get_topic = []\<rparr>]\<rparr>"

text \<open>The same robot when the model \<^verbatim>\<open>robot\<close> has no ParentEntity component, and when
  the model \<^verbatim>\<open>tool\<close> has no Name component.\<close>

definition ex_orphan :: "(double, altimeter_sdf) EntityComponentManager" where
  "ex_orphan = (ex_robot d_5)\<lparr>ParentEntity := [3 \<mapsto> 2, 4 \<mapsto> 3, 5 \<mapsto> 4]\<rparr>"

definition ex_unnamed :: "(double, altimeter_sdf) EntityComponentManager" where
  "ex_unnamed = (ex_robot d_5)\<lparr>Name := [1 \<mapsto> ''world'', 2 \<mapsto> ''robot'', 4 \<mapsto> ''arm'', 5 \<mapsto> ''alt0'']\<rparr>"

definition ex_topic :: string where
  "ex_topic = ''/model/robot/model/tool/link/arm/sensor/alt0/altimeter''"

text \<open>The altimeter system after its first PreUpdate at a given height.\<close>

definition ex_altimeter :: "double \<Rightarrow> AltimeterPrivate" where
  "ex_altimeter reference = \<lparr>initialized = True,
     entitySensorMap = [5 \<mapsto> \<lparr>topic = ex_topic, verticalPosition = double_zero,
        verticalVelocity = double_zero, verticalReference = reference, pub = False\<rparr>]\<rparr>"

text \<open>The doubles \<open>2 ^ 1023\<close> and \<open>- 2 ^ 1023\<close>.\<close>

definition d_high :: double where
  "d_high = Finite 4503599627370496 971"

definition d_low :: double where
  "d_low = Finite (- 4503599627370496) 971"

section \<open>Properties of log playback\<close>

subsection \<open>Pause\<close>

text \<open>
  Claim C6.  For any number of consecutive ticks with \<open>paused = true\<close>, Update leaves the
  manager and the cursor position unchanged, and nothing is read or written: the whole
  state of the system is the same and the console is empty.
\<close>

theorem paused_ticks_change_nothing:
  "\<forall>info \<in> set infos. paused info \<Longrightarrow> Updates deps infos s ecm = (s, ecm, [])"
  by (induction infos) (simp_all add: Update_def)

theorem paused_ticks_change_nothing_witness:
  "paused (tick 1500000000 True) \<and> paused (tick 2500000000 True) \<and>
   Updates ex_deps [tick 1500000000 True, tick 2500000000 True] (ex_state 0) ex_ecm
     = (ex_state 0, ex_ecm, [])"
  using paused_ticks_change_nothing
    [of "[tick 1500000000 True, tick 2500000000 True]" ex_deps "ex_state 0" ex_ecm]
  by (simp add: tick_def)

subsection \<open>What ParsePoseV computes\<close>

lemma find_app:
  "List.find P (xs @ ys) = (case List.find P xs of None \<Rightarrow> List.find P ys | Some x \<Rightarrow> Some x)"
  by (induction xs) auto

lemma idToPose_fill_find:
  "idToPose_fill m ps e =
     (case List.find (\<lambda>p. pose_id p = e) (rev ps) of None \<Rightarrow> m e | Some p \<Rightarrow> Some p)"
  by (induction ps arbitrary: m) (auto simp: find_app split: option.splits)

lemma idToPose_fill_recorded: "idToPose_fill Map.empty ps = recorded ps"
  by (rule ext) (simp add: idToPose_fill_find recorded_def split: option.splits)

lemma Each_Pose_visitor:
  "Each_Pose (pose_visitor M) es ecm =
     ecm\<lparr>Pose := (\<lambda>e. if e \<in> set es \<and> Pose ecm e \<noteq> None \<and> M e \<noteq> None
                       then map_option pose_data (M e) else Pose ecm e)\<rparr>"
proof (induction es arbitrary: ecm)
  case Nil
  then show ?case by simp
next
  case (Cons a es)
  have step: "pose_visitor M a ecm =
      ecm\<lparr>Pose := (\<lambda>e. if e = a \<and> M e \<noteq> None then map_option pose_data (M e) else Pose ecm e)\<rparr>"
    by (auto simp: pose_visitor_def fun_eq_iff split: option.splits)
  show ?case
    by (rule EntityComponentManager.equality) (auto simp: Cons.IH step fun_eq_iff)
qed

lemma ParsePoseV_eq:
  "ParsePoseV deps m ecm =
     ecm\<lparr>Pose := (\<lambda>e. if e \<in> set (entities ecm) \<and> Pose ecm e \<noteq> None
                            \<and> recorded (ParsePose_V deps (Data m)) e \<noteq> None
                       then map_option pose_data (recorded (ParsePose_V deps (Data m)) e)
                       else Pose ecm e)\<rparr>"
  by (simp add: ParsePoseV_def Let_def Each_Pose_visitor idToPose_fill_recorded)

subsection \<open>One message per tick\<close>

lemma remaining_advance:
  "remaining s = m # ms \<Longrightarrow> remaining (s\<lparr>iter := iter s + 1\<rparr>) = ms"
  by (simp add: remaining_def drop_Suc drop_tl)

text \<open>
  Claim C2.  On a tick that is not paused, with the cursor at a message \<open>m\<close>: if the
  simulated time is before the time \<open>m\<close> was received, Update returns the state and the
  manager as they were.  Otherwise the cursor advances by exactly one, past \<open>m\<close> and no
  further, and
  \<^item> a pose vector is applied: every entity of the manager that has a pose component and
    is named in the message gets the pose the message records for it, and nothing else
    changes;
  \<^item> a serialized state is applied: the manager becomes what SetState makes of it with
    the decoded state;
  \<^item> on any other kind the manager is untouched and one warning is written.
\<close>

theorem Update_one_message:
  assumes "\<not> paused info" and "remaining s = m # ms"
  shows "(simTime info < TimeReceived m \<longrightarrow> Update deps info s ecm = (s, ecm, [])) \<and>
    (\<not> simTime info < TimeReceived m \<longrightarrow>
       fst (Update deps info s ecm) = s\<lparr>iter := iter s + 1\<rparr> \<and>
       iter (fst (Update deps info s ecm)) = iter s + 1 \<and>
       remaining (fst (Update deps info s ecm)) = ms \<and>
       (Type m = ''ignition.msgs.Pose_V'' \<longrightarrow>
          snd (Update deps info s ecm) =
            (ecm\<lparr>Pose := (\<lambda>e. if e \<in> set (entities ecm) \<and> Pose ecm e \<noteq> None
                                   \<and> recorded (ParsePose_V deps (Data m)) e \<noteq> None
                              then map_option pose_data (recorded (ParsePose_V deps (Data m)) e)
                              else Pose ecm e)\<rparr>, [])) \<and>
       (Type m = ''ignition.msgs.SerializedState'' \<longrightarrow>
          snd (Update deps info s ecm) = (SetState deps (ParseState deps (Data m)) ecm, [])) \<and>
       (Type m \<noteq> ''ignition.msgs.Pose_V'' \<and> Type m \<noteq> ''ignition.msgs.SerializedState'' \<longrightarrow>
          snd (Update deps info s ecm) =
            (ecm, [Warn (''Trying to playback unsupported message type ['' @ Type m @ '']'')])))"
  using assms remaining_advance [OF assms(2)]
  by (simp add: Update_def ParseSerializedState_def ParsePoseV_eq)

theorem Update_one_message_witness:
  "\<not> paused (tick 500000000 False) \<and> remaining (ex_state 0) = hd ex_log # tl ex_log \<and>
   simTime (tick 500000000 False) < TimeReceived (hd ex_log) \<and>
   Update ex_deps (tick 500000000 False) (ex_state 0) ex_ecm = (ex_state 0, ex_ecm, []) \<and>
   \<not> simTime (tick 1000000000 False) < TimeReceived (hd ex_log) \<and>
   Type (hd ex_log) = ''ignition.msgs.Pose_V'' \<and>
   Pose ex_ecm = [2 \<mapsto> pose_at 0] \<and>
   Update ex_deps (tick 1000000000 False) (ex_state 0) ex_ecm
     = (ex_state 1, ex_ecm\<lparr>Pose := [2 \<mapsto> pose_at 5]\<rparr>, []) \<and>
   remaining (ex_state 1) = tl ex_log \<and>
   Update ex_deps (tick 2000000000 False) (ex_state 1) ex_ecm
     = (ex_state 2,
        ex_ecm\<lparr>entities := [1, 2, 3, 4], Pose := [2 \<mapsto> pose_at 0, 4 \<mapsto> pose_at 3]\<rparr>, []) \<and>
   Update ex_deps (tick 3500000000 False) (ex_state 2) ex_ecm
     = (ex_state 3, ex_ecm,
        [Warn ''Trying to playback unsupported message type [ignition.msgs.Clock]''])"
proof -
  have r: "recorded (ParsePose_V ex_deps (Data (hd ex_log))) =
     [2 \<mapsto> \<lparr>pose_id = 2, pose_data = pose_at 5\<rparr>, 3 \<mapsto> \<lparr>pose_id = 3, pose_data = pose_at 6\<rparr>,
      9 \<mapsto> \<lparr>pose_id = 9, pose_data = pose_at 8\<rparr>]"
    by (rule ext) (simp add: recorded_def ex_deps_def ex_log_def)
  have p: "(\<lambda>e. if e \<in> set (entities ex_ecm) \<and> Pose ex_ecm e \<noteq> None
                    \<and> recorded (ParsePose_V ex_deps (Data (hd ex_log))) e \<noteq> None
               then map_option pose_data (recorded (ParsePose_V ex_deps (Data (hd ex_log))) e)
               else Pose ex_ecm e) = [2 \<mapsto> pose_at 5]"
    by (rule ext) (simp add: r, simp add: ex_ecm_def)
  have a: "Update ex_deps (tick 1000000000 False) (ex_state 0) ex_ecm
     = (ex_state 1, ex_ecm\<lparr>Pose := [2 \<mapsto> pose_at 5]\<rparr>, [])"
    using Update_one_message [of "tick 1000000000 False" "ex_state 0" "hd ex_log" "tl ex_log"
        ex_deps ex_ecm]
    unfolding p
    by (simp add: tick_def ex_state_def ex_log_def remaining_def prod_eq_iff)
  have b: "\<not> paused (tick 500000000 False) \<and> remaining (ex_state 0) = hd ex_log # tl ex_log \<and>
   simTime (tick 500000000 False) < TimeReceived (hd ex_log) \<and>
   Update ex_deps (tick 500000000 False) (ex_state 0) ex_ecm = (ex_state 0, ex_ecm, []) \<and>
   \<not> simTime (tick 1000000000 False) < TimeReceived (hd ex_log) \<and>
   Type (hd ex_log) = ''ignition.msgs.Pose_V'' \<and>
   Pose ex_ecm = [2 \<mapsto> pose_at 0] \<and>
   remaining (ex_state 1) = tl ex_log \<and>
   Update ex_deps (tick 2000000000 False) (ex_state 1) ex_ecm
     = (ex_state 2,
        ex_ecm\<lparr>entities := [1, 2, 3, 4], Pose := [2 \<mapsto> pose_at 0, 4 \<mapsto> pose_at 3]\<rparr>, []) \<and>
   Update ex_deps (tick 3500000000 False) (ex_state 2) ex_ecm
     = (ex_state 3, ex_ecm,
        [Warn ''Trying to playback unsupported message type [ignition.msgs.Clock]''])"
    using
      Update_one_message [of "tick 500000000 False" "ex_state 0" "hd ex_log" "tl ex_log"
        ex_deps ex_ecm]
      Update_one_message [of "tick 2000000000 False" "ex_state 1" "ex_log ! 1" "drop 2 ex_log"
        ex_deps ex_ecm]
      Update_one_message [of "tick 3500000000 False" "ex_state 2" "ex_log ! 2" "[]"
        ex_deps ex_ecm]
    by (simp add: tick_def ex_state_def ex_log_def remaining_def prod_eq_iff ex_deps_def
        ex_ecm_def)
  from a b show ?thesis by simp
qed

subsection \<open>The end of the log\<close>

lemma remaining_printedEnd [simp]: "remaining (s\<lparr>printedEnd := b\<rparr>) = remaining s"
  by (simp add: remaining_def)

lemma Updates_latched:
  "remaining s = [] \<Longrightarrow> printedEnd s \<Longrightarrow> Updates deps infos s ecm = (s, ecm, [])"
  by (induction infos) (simp_all add: Update_def)

text \<open>
  Claim C9.  With the cursor at the end and the latch unset: the first tick that is not
  paused writes the completion message and sets the latch, changing nothing else; from
  then on every run of ticks writes nothing and changes nothing.  So a run of ticks from
  the moment the cursor is exhausted writes the completion message exactly once if one
  of its ticks is not paused, and nothing otherwise.
\<close>

theorem completion_once:
  assumes "remaining s = []" and "\<not> printedEnd s"
  shows "(\<not> paused info \<longrightarrow>
        Update deps info s ecm = (s\<lparr>printedEnd := True\<rparr>, ecm, [finished])) \<and>
     Updates deps later (s\<lparr>printedEnd := True\<rparr>) ecm = (s\<lparr>printedEnd := True\<rparr>, ecm, []) \<and>
     Updates deps infos s ecm =
       (if \<forall>i \<in> set infos. paused i then (s, ecm, [])
        else (s\<lparr>printedEnd := True\<rparr>, ecm, [finished]))"
proof -
  have latched: "Updates deps is (s\<lparr>printedEnd := True\<rparr>) ecm
      = (s\<lparr>printedEnd := True\<rparr>, ecm, [])" for "is"
    using assms(1) by (intro Updates_latched) simp_all
  have run: "Updates deps infos s ecm =
       (if \<forall>i \<in> set infos. paused i then (s, ecm, [])
        else (s\<lparr>printedEnd := True\<rparr>, ecm, [finished]))"
    using assms by (induction infos) (simp_all add: Update_def latched)
  show ?thesis using assms latched run by (simp add: Update_def)
qed

theorem completion_once_witness:
  "remaining (ex_state 3) = [] \<and> \<not> printedEnd (ex_state 3) \<and>
   \<not> paused (tick 4000000000 False) \<and>
   Update ex_deps (tick 4000000000 False) (ex_state 3) ex_ecm
     = ((ex_state 3)\<lparr>printedEnd := True\<rparr>, ex_ecm, [finished]) \<and>
   Updates ex_deps [tick 5000000000 False, tick 6000000000 False]
       ((ex_state 3)\<lparr>printedEnd := True\<rparr>) ex_ecm
     = ((ex_state 3)\<lparr>printedEnd := True\<rparr>, ex_ecm, []) \<and>
   Updates ex_deps [tick 3500000000 True, tick 4000000000 False, tick 5000000000 True,
       tick 6000000000 False] (ex_state 3) ex_ecm
     = ((ex_state 3)\<lparr>printedEnd := True\<rparr>, ex_ecm, [finished])"
  using completion_once [of "ex_state 3" "tick 4000000000 False" ex_deps ex_ecm
      "[tick 5000000000 False, tick 6000000000 False]"
      "[tick 3500000000 True, tick 4000000000 False, tick 5000000000 True,
        tick 6000000000 False]"]
  by (simp add: ex_state_def remaining_def ex_log_def tick_def)

text \<open>
  The latch is set only at the end of the log, and Update keeps it so.  Hence any run
  from a state where this holds, the initial one included, writes the completion message
  at most once.
\<close>

lemma Update_latch_invariant:
  "printedEnd s \<longrightarrow> remaining s = [] \<Longrightarrow>
   printedEnd (fst (Update deps info s ecm)) \<longrightarrow> remaining (fst (Update deps info s ecm)) = []"
  by (auto simp: Update_def split: list.splits if_splits)

lemma completion_at_most_once:
  "printedEnd s \<longrightarrow> remaining s = [] \<Longrightarrow>
   count_list (snd (snd (Updates deps infos s ecm))) finished \<le> 1"
proof (induction infos arbitrary: s ecm)
  case Nil
  then show ?case by simp
next
  case (Cons info infos)
  obtain s' ecm' out where u: "Update deps info s ecm = (s', ecm', out)"
    by (cases "Update deps info s ecm")
  obtain s'' ecm'' out' where us: "Updates deps infos s' ecm' = (s'', ecm'', out')"
    by (cases "Updates deps infos s' ecm'")
  have inv: "printedEnd s' \<longrightarrow> remaining s' = []"
    using Update_latch_invariant [OF Cons.prems, of deps info ecm] u by simp
  have ih: "count_list out' finished \<le> 1"
    using Cons.IH [OF inv, of ecm'] us by simp
  show ?case
  proof (cases "finished \<in> set out")
    case True
    then have "remaining s' = []" "printedEnd s'" "out = [finished]"
      using u by (auto simp: Update_def finished_def split: if_splits list.splits)
    then show ?thesis using u us Updates_latched [of s' deps infos ecm'] by simp
  next
    case False
    then have "count_list out finished = 0" by simp
    then show ?thesis using u us ih by simp
  qed
qed

subsection \<open>Applying a pose vector\<close>

text \<open>
  Claim C10.  Applying a pose-vector message writes nothing to the console and changes
  nothing but pose components: the entities and every other component storage are the
  same, the set of entities that have a pose component is the same, and the pose of an
  entity changes only if the entity is in the manager, has a pose component and is named
  in the message, in which case it becomes the pose the message records for it.  A pose
  recorded for any other id has no effect.
\<close>

theorem Pose_V_frame:
  assumes "\<not> paused info" and "remaining s = m # ms" and "\<not> simTime info < TimeReceived m"
    and "Type m = ''ignition.msgs.Pose_V''"
  shows "\<exists>ecm'. Update deps info s ecm = (s\<lparr>iter := iter s + 1\<rparr>, ecm', []) \<and>
     ecm' = ecm\<lparr>Pose := Pose ecm'\<rparr> \<and>
     dom (Pose ecm') = dom (Pose ecm) \<and>
     (\<forall>e. Pose ecm' e =
        (if e \<in> set (entities ecm) \<and> Pose ecm e \<noteq> None
            \<and> recorded (ParsePose_V deps (Data m)) e \<noteq> None
         then map_option pose_data (recorded (ParsePose_V deps (Data m)) e) else Pose ecm e))"
proof -
  have "Update deps info s ecm = (s\<lparr>iter := iter s + 1\<rparr>, ParsePoseV deps m ecm, [])"
    using assms by (simp add: Update_def)
  moreover have "ParsePoseV deps m ecm = ecm\<lparr>Pose := Pose (ParsePoseV deps m ecm)\<rparr>"
    by (simp add: ParsePoseV_eq)
  moreover have "dom (Pose (ParsePoseV deps m ecm)) = dom (Pose ecm)"
    by (auto simp: ParsePoseV_eq dom_def)
  moreover have "Pose (ParsePoseV deps m ecm) e =
        (if e \<in> set (entities ecm) \<and> Pose ecm e \<noteq> None
            \<and> recorded (ParsePose_V deps (Data m)) e \<noteq> None
         then map_option pose_data (recorded (ParsePose_V deps (Data m)) e) else Pose ecm e)" for e
    by (simp add: ParsePoseV_eq)
  ultimately show ?thesis by blast
qed

theorem Pose_V_frame_witness:
  "\<not> paused (tick 1000000000 False) \<and> remaining (ex_state 0) = hd ex_log # tl ex_log \<and>
   \<not> simTime (tick 1000000000 False) < TimeReceived (hd ex_log) \<and>
   Type (hd ex_log) = ''ignition.msgs.Pose_V'' \<and>
   recorded (ParsePose_V ex_deps (Data (hd ex_log))) 2 = Some \<lparr>pose_id = 2, pose_data = pose_at 5\<rparr> \<and>
   recorded (ParsePose_V ex_deps (Data (hd ex_log))) 3 = Some \<lparr>pose_id = 3, pose_data = pose_at 6\<rparr> \<and>
   recorded (ParsePose_V ex_deps (Data (hd ex_log))) 9 = Some \<lparr>pose_id = 9, pose_data = pose_at 8\<rparr> \<and>
   Update ex_deps (tick 1000000000 False) (ex_state 0) ex_ecm
     = (ex_state 1, ex_ecm\<lparr>Pose := [2 \<mapsto> pose_at 5]\<rparr>, [])"
proof -
  have h: "\<not> paused (tick 1000000000 False)" "remaining (ex_state 0) = hd ex_log # tl ex_log"
    "\<not> simTime (tick 1000000000 False) < TimeReceived (hd ex_log)"
    "Type (hd ex_log) = ''ignition.msgs.Pose_V''"
    by (simp_all add: tick_def ex_state_def remaining_def ex_log_def)
  have r: "recorded (ParsePose_V ex_deps (Data (hd ex_log))) = 
     [2 \<mapsto> \<lparr>pose_id = 2, pose_data = pose_at 5\<rparr>, 3 \<mapsto> \<lparr>pose_id = 3, pose_data = pose_at 6\<rparr>,
      9 \<mapsto> \<lparr>pose_id = 9, pose_data = pose_at 8\<rparr>]"
    by (rule ext) (simp add: recorded_def ex_deps_def ex_log_def)
  from Pose_V_frame [OF h, of ex_deps ex_ecm]
  obtain ecm' where e: "Update ex_deps (tick 1000000000 False) (ex_state 0) ex_ecm
       = ((ex_state 0)\<lparr>iter := iter (ex_state 0) + 1\<rparr>, ecm', [])"
     "ecm' = ex_ecm\<lparr>Pose := Pose ecm'\<rparr>"
     "\<And>e. Pose ecm' e =
        (if e \<in> set (entities ex_ecm) \<and> Pose ex_ecm e \<noteq> None
            \<and> recorded (ParsePose_V ex_deps (Data (hd ex_log))) e \<noteq> None
         then map_option pose_data (recorded (ParsePose_V ex_deps (Data (hd ex_log))) e)
         else Pose ex_ecm e)"
    by blast
  have "Pose ecm' = [2 \<mapsto> pose_at 5]"
    by (rule ext) (simp add: e(3) r, simp add: ex_ecm_def)
  with e(1,2) h r show ?thesis by (simp add: ex_state_def)
qed


subsection \<open>Plugin filtering in Configure\<close>

lemma str_find_sublist: "str_find h n = None \<longleftrightarrow> \<not> sublist n h"
  by (induction h) (auto simp: sublist_Cons_right)

lemma sublist_str_find: "sublist n h \<longleftrightarrow> str_find h n \<noteq> None"
  by (simp add: str_find_sublist)

lemma flagged_spec: "(elt_name c = ''plugin'' \<and> flagged c) = spec_removed c"
  by (cases "map_of (elt_attributes c) ''name''")
     (simp_all add: flagged_def spec_removed_def HasAttribute_def GetAttribute_def str_find_sublist)

lemma plugins_walk_ge: "j \<in> set (plugins_walk i cs) \<Longrightarrow> i \<le> j"
  by (induction cs arbitrary: i) (auto split: if_splits dest: Suc_leD)

lemma drop_marked_walk:
  "\<forall>j \<in> set pre. j < i \<Longrightarrow>
     drop_marked (pre @ plugins_walk i cs) i cs
       = filter (\<lambda>c. \<not> (elt_name c = ''plugin'' \<and> flagged c)) cs"
proof (induction cs arbitrary: i pre)
  case Nil
  then show ?case by simp
next
  case (Cons c cs)
  have notin: "i \<notin> set (plugins_walk (Suc i) cs)"
    using plugins_walk_ge [of i "Suc i" cs] by auto
  have notpre: "i \<notin> set pre" using Cons.prems by auto
  show ?case
  proof (cases "elt_name c = ''plugin'' \<and> flagged c")
    case True
    have "\<forall>j \<in> set (pre @ [i]). j < Suc i" using Cons.prems by auto
    from Cons.IH [OF this] True show ?thesis by simp
  next
    case False
    have "\<forall>j \<in> set pre. j < Suc i" using Cons.prems by auto
    from Cons.IH [OF this] False notin notpre show ?thesis by auto
  qed
qed

lemma remove_plugins_children:
  "elt_children (remove_plugins world)
     = filter (\<lambda>c. \<not> (elt_name c = ''plugin'' \<and> flagged c)) (elt_children world)"
  using drop_marked_walk [of "[]" 0 "elt_children world"]
  by (simp add: remove_plugins_def pluginsRm_def)

text \<open>
  Claim C4, amended.  When Configure gets to the loaded scene, it emits one LoadPlugins
  event, for the world entity, carrying the world element with its name and attributes
  as loaded and with exactly these children, in their order and each as loaded: every
  child of the loaded world element except the plugin declarations among them whose
  name attribute contains \<^verbatim>\<open>LogRecord\<close> or \<^verbatim>\<open>Physics\<close>.
\<close>

theorem Configure_filters_plugins:
  assumes "reaches_log env logPath"
    and "w = hd (worlds (Root_Load env (joinPaths env logPath ''state.sdf'')))"
  shows "\<exists>element.
     events_of (Configure env worldEntity logPath s ecm) = [LoadPlugins worldEntity element] \<and>
     elt_name element = elt_name (world_Element w) \<and>
     elt_attributes element = elt_attributes (world_Element w) \<and>
     elt_children element = filter (\<lambda>c. \<not> spec_removed c) (elt_children (world_Element w))"
proof -
  have "events_of (Configure env worldEntity logPath s ecm)
      = [LoadPlugins worldEntity (remove_plugins (world_Element w))]"
    using assms by (simp add: Configure_def events_of_def Let_def reaches_log_def)
  moreover have "elt_children (remove_plugins (world_Element w))
      = filter (\<lambda>c. \<not> spec_removed c) (elt_children (world_Element w))"
    by (simp add: remove_plugins_children flagged_spec)
  moreover have "elt_name (remove_plugins (world_Element w)) = elt_name (world_Element w)"
    "elt_attributes (remove_plugins (world_Element w)) = elt_attributes (world_Element w)"
    by (simp_all add: remove_plugins_def)
  ultimately show ?thesis by blast
qed

theorem Configure_filters_plugins_witness:
  "reaches_log ex_env ''/logs'' \<and>
   world_Element (hd (worlds (Root_Load ex_env (joinPaths ex_env ''/logs'' ''state.sdf''))))
     = ex_world \<and>
   events_of (Configure ex_env 1 ''/logs'' LogPlaybackPrivate_init ex_world_ecm) =
   [LoadPlugins 1 (Element ''world'' [(''name'', ''default'')]
     [Element ''model'' [(''name'', ''PhysicsBox'')]
        [Element ''plugin'' [(''name'', ''WheelPhysics'')] []],
      Element ''plugin'' [(''name'', ''KeyboardInput'')] [],
      Element ''plugin'' [(''filename'', ''libB.so'')] []])]"
proof -
  have h: "reaches_log ex_env ''/logs''"
    by (simp add: reaches_log_def ex_env_def)
  have w: "world_Element (hd (worlds (Root_Load ex_env (joinPaths ex_env ''/logs'' ''state.sdf''))))
      = ex_world"
    by (simp add: ex_env_def)
  from Configure_filters_plugins [OF h refl, of 1 LogPlaybackPrivate_init ex_world_ecm]
  obtain element where e:
    "events_of (Configure ex_env 1 ''/logs'' LogPlaybackPrivate_init ex_world_ecm)
       = [LoadPlugins 1 element]"
    "elt_name element = elt_name ex_world" "elt_attributes element = elt_attributes ex_world"
    "elt_children element = filter (\<lambda>c. \<not> spec_removed c) (elt_children ex_world)"
    unfolding w by auto
  have "element = Element (elt_name element) (elt_attributes element) (elt_children element)"
    by simp
  also have "\<dots> = Element ''world'' [(''name'', ''default'')]
     [Element ''model'' [(''name'', ''PhysicsBox'')]
        [Element ''plugin'' [(''name'', ''WheelPhysics'')] []],
      Element ''plugin'' [(''name'', ''KeyboardInput'')] [],
      Element ''plugin'' [(''filename'', ''libB.so'')] []]"
    unfolding e by (simp add: ex_world_def spec_removed_def GetAttribute_def sublist_str_find)
  finally show ?thesis using h w e(1) by simp
qed

text \<open>
  Claim C4 does not hold of every plugin declaration of the scene: Configure asks the
  world element for its plugin children only.  A plugin declaration inside a model whose
  name contains \<^verbatim>\<open>Physics\<close> is still in the element that is forwarded.
\<close>

theorem Configure_nested_plugin_counterexample:
  "events_of (Configure ex_env 1 ''/logs'' LogPlaybackPrivate_init ex_world_ecm) =
     [LoadPlugins 1 (Element ''world'' [(''name'', ''default'')]
       [Element ''model'' [(''name'', ''PhysicsBox'')]
          [Element ''plugin'' [(''name'', ''WheelPhysics'')] []],
        Element ''plugin'' [(''name'', ''KeyboardInput'')] [],
        Element ''plugin'' [(''filename'', ''libB.so'')] []])] \<and>
   Element ''plugin'' [(''name'', ''WheelPhysics'')] [] \<in> set (descendants ex_world) \<and>
   spec_removed (Element ''plugin'' [(''name'', ''WheelPhysics'')] []) \<and>
   Element ''plugin'' [(''name'', ''WheelPhysics'')] []
     \<in> set (descendants (Element ''world'' [(''name'', ''default'')]
       [Element ''model'' [(''name'', ''PhysicsBox'')]
          [Element ''plugin'' [(''name'', ''WheelPhysics'')] []],
        Element ''plugin'' [(''name'', ''KeyboardInput'')] [],
        Element ''plugin'' [(''filename'', ''libB.so'')] []]))"
proof -
  have "events_of (Configure ex_env 1 ''/logs'' LogPlaybackPrivate_init ex_world_ecm) =
     [LoadPlugins 1 (Element ''world'' [(''name'', ''default'')]
       [Element ''model'' [(''name'', ''PhysicsBox'')]
          [Element ''plugin'' [(''name'', ''WheelPhysics'')] []],
        Element ''plugin'' [(''name'', ''KeyboardInput'')] [],
        Element ''plugin'' [(''filename'', ''libB.so'')] []])]"
    by (simp add: Configure_def ex_env_def events_of_def Let_def ex_world_def
        remove_plugins_def pluginsRm_def flagged_def HasAttribute_def GetAttribute_def)
  moreover have "spec_removed (Element ''plugin'' [(''name'', ''WheelPhysics'')] [])"
    by (simp add: spec_removed_def GetAttribute_def sublist_str_find)
  moreover have "Element ''plugin'' [(''name'', ''WheelPhysics'')] [] \<in> set (descendants ex_world)"
    by (simp add: ex_world_def)
  ultimately show ?thesis by simp
qed

subsection \<open>Configuration errors\<close>

lemma filter_is_Err_Dbg [simp]: "filter is_Err (map (\<lambda>n. Dbg (f n)) ns) = []"
  by (induction ns) simp_all

text \<open>The number of error lines Configure writes.\<close>

lemma Configure_errors:
  "length (filter is_Err (console_of (Configure env worldEntity logPath s ecm))) =
     (if \<not> reaches_log env logPath then 1
      else (if Log_Open env (joinPaths env logPath ''state.tlog'') then 0 else 1) +
           (if Log_QueryMessages env (joinPaths env logPath ''state.tlog'') = [] then 1 else 0))"
  by (simp add: Configure_def console_of_def reaches_log_def Let_def)

lemma Configure_cursor:
  "remaining (fst (Configure env worldEntity logPath LogPlaybackPrivate_init ecm)) =
     (if reaches_log env logPath then Log_QueryMessages env (joinPaths env logPath ''state.tlog'')
      else [])"
  "printedEnd (fst (Configure env worldEntity logPath LogPlaybackPrivate_init ecm)) = False"
  by (simp_all add: Configure_def reaches_log_def Let_def remaining_def LogPlaybackPrivate_init_def)

lemma Updates_exhausted:
  "remaining s = [] \<Longrightarrow>
     fst (snd (Updates deps infos s ecm)) = ecm \<and>
     remaining (fst (Updates deps infos s ecm)) = [] \<and>
     filter is_Err (snd (snd (Updates deps infos s ecm))) = []"
proof (induction infos arbitrary: s)
  case Nil
  then show ?case by simp
next
  case (Cons info infos)
  have "Update deps info s ecm = (s, ecm, []) \<or>
        Update deps info s ecm = (s\<lparr>printedEnd := True\<rparr>, ecm, [finished])"
    using Cons.prems by (simp add: Update_def)
  then show ?case
    using Cons.IH [of s] Cons.IH [of "s\<lparr>printedEnd := True\<rparr>"] Cons.prems
    by (auto simp: finished_def split: prod.splits)
qed

text \<open>
  On a configuration error Configure writes at least one error line and leaves the
  cursor at the end, so that no later run of ticks changes the manager or writes an
  error.  The second hypothesis is the transport log's behaviour: a log that did not
  open has no messages to give.
\<close>

lemma Configure_error_disables:
  assumes "config_error env logPath"
    and "\<not> Log_Open env (joinPaths env logPath ''state.tlog'')
         \<longrightarrow> Log_QueryMessages env (joinPaths env logPath ''state.tlog'') = []"
  shows "1 \<le> length (filter is_Err (console_of (Configure env worldEntity logPath LogPlaybackPrivate_init ecm)))"
   and "remaining (fst (Configure env worldEntity logPath LogPlaybackPrivate_init ecm)) = []"
   and "fst (snd (Updates deps infos (fst (Configure env worldEntity logPath LogPlaybackPrivate_init ecm)) ecm')) = ecm'"
   and "filter is_Err (snd (snd (Updates deps infos (fst (Configure env worldEntity logPath LogPlaybackPrivate_init ecm)) ecm'))) = []"
proof -
  show c: "remaining (fst (Configure env worldEntity logPath LogPlaybackPrivate_init ecm)) = []"
    using assms by (auto simp: Configure_cursor config_error_def)
  show "1 \<le> length (filter is_Err (console_of (Configure env worldEntity logPath LogPlaybackPrivate_init ecm)))"
    using assms by (auto simp: Configure_errors config_error_def)
  show "fst (snd (Updates deps infos (fst (Configure env worldEntity logPath LogPlaybackPrivate_init ecm)) ecm')) = ecm'"
   and "filter is_Err (snd (snd (Updates deps infos (fst (Configure env worldEntity logPath LogPlaybackPrivate_init ecm)) ecm'))) = []"
    using Updates_exhausted [OF c, of deps infos ecm'] by simp_all
qed

text \<open>
  Claim C5, at a log directory whose \<^verbatim>\<open>state.tlog\<close> exists and cannot be opened: Configure
  writes two error lines, the failure to open and then the empty log, since it goes on
  after the first.
\<close>

theorem open_failure_reports_twice:
  "filter is_Err (console_of (Configure ex_env_unopenable 1 ''/logs'' LogPlaybackPrivate_init ex_world_ecm))
     = [Err ''Failed to open log file [/logs/state.tlog]'',
        Err ''No messages found in log file [/logs/state.tlog]'']"
  by (simp add: Configure_def ex_env_unopenable_def ex_env_def console_of_def Let_def)

theorem open_failure_reports_twice_witness:
  "length (filter is_Err (console_of (Configure ex_env_unopenable 1 ''/logs'' LogPlaybackPrivate_init ex_world_ecm))) = 2"
  using open_failure_reports_twice by simp


section \<open>Properties of the altimeter\<close>

subsection \<open>The topic resolver\<close>

lemma topic_loop_models_above:
  "models_above ecm p ns \<Longrightarrow> topic_loop ecm p t = Some (Returns (model_prefix ns @ t))"
proof (induction ns arbitrary: p t)
  case Nil
  show ?case
  proof (cases p)
    case None
    then show ?thesis by (subst topic_loop.simps) (simp add: model_prefix_def)
  next
    case (Some a)
    with Nil have "World ecm a \<noteq> None" by simp
    with Some show ?thesis by (subst topic_loop.simps) (simp add: model_prefix_def)
  qed
next
  case (Cons n ns)
  then obtain a where a: "p = Some a" "World ecm a = None" "Name ecm a = Some n"
    "models_above ecm (ParentEntity ecm a) ns"
    by (auto split: option.splits)
  show ?case
    by (subst topic_loop.simps) (simp add: a Cons.IH [OF a(4)] model_prefix_def)
qed

lemma orphan_chain_models_above: "orphan_chain ecm p ns \<Longrightarrow> models_above ecm p ns"
  by (induction ns arbitrary: p) (auto split: option.splits)

text \<open>
  Claim C3.  For an entity with a name, under a link with a name, under models whose
  names are \<open>ns\<close> from the innermost to the outermost, the resolver returns
  \<^verbatim>\<open>/link/\<close> + link name + \<^verbatim>\<open>/sensor/\<close> + sensor name + \<^verbatim>\<open>/altimeter\<close>, with
  \<^verbatim>\<open>/model/\<close> + name of every model in front, the outermost first.  When the altimeter's
  configuration has no topic element or an empty one, this is the topic of the sensor
  that CreateAltimeterEntities makes for the entity.
\<close>

theorem DefaultTopic_nested:
  fixes ecm :: "(double, altimeter_sdf) EntityComponentManager"
  assumes "Name ecm e = Some sensorName" and "ParentEntity ecm e = Some link"
    and "Name ecm link = Some linkName" and "models_above ecm (ParentEntity ecm link) ns"
  shows "DefaultTopic ecm e = Some (Returns
       (model_prefix ns @ ''/link/'' @ linkName @ ''/sensor/'' @ sensorName @ ''/altimeter'')) \<and>
     (\<not> HasElement_topic altimeter \<or> Get_topic altimeter = [] \<longrightarrow>
        create_visitor worldPose ecm e altimeter m = Some (Returns (map_insert e
          (AltimeterSensor_init\<lparr>verticalReference := Z (Pos (worldPose e ecm)),
             topic := model_prefix ns @ ''/link/'' @ linkName @ ''/sensor/'' @ sensorName
               @ ''/altimeter''\<rparr>) m)))"
proof -
  have d: "DefaultTopic ecm e = Some (Returns
       (model_prefix ns @ ''/link/'' @ linkName @ ''/sensor/'' @ sensorName @ ''/altimeter''))"
    using assms by (simp add: DefaultTopic_def topic_loop_models_above)
  show ?thesis
    by (auto simp: d create_visitor_def Load_def AltimeterSensor_init_def Let_def)
qed

theorem DefaultTopic_nested_witness:
  "Name (ex_robot d_5) 5 = Some ''alt0'' \<and> ParentEntity (ex_robot d_5) 5 = Some 4 \<and>
   Name (ex_robot d_5) 4 = Some ''arm'' \<and>
   models_above (ex_robot d_5) (ParentEntity (ex_robot d_5) 4) [''tool'', ''robot''] \<and>
   DefaultTopic (ex_robot d_5) 5
     = Some (Returns ''/model/robot/model/tool/link/arm/sensor/alt0/altimeter'') \<and>
   create_visitor (\<lambda>e ecm. pose_z d_5) (ex_robot d_5) 5
       \<lparr>HasElement_topic = True, Get_topic = []\<rparr> Map.empty
     = Some (Returns [5 \<mapsto> \<lparr>topic = ''/model/robot/model/tool/link/arm/sensor/alt0/altimeter'',
          verticalPosition = double_zero, verticalVelocity = double_zero,
          verticalReference = d_5, pub = False\<rparr>])"
proof -
  have h: "Name (ex_robot d_5) 5 = Some ''alt0''" "ParentEntity (ex_robot d_5) 5 = Some 4"
    "Name (ex_robot d_5) 4 = Some ''arm''"
    "models_above (ex_robot d_5) (ParentEntity (ex_robot d_5) 4) [''tool'', ''robot'']"
    by (simp_all add: ex_robot_def)
  from DefaultTopic_nested [OF h, of "\<lparr>HasElement_topic = True, Get_topic = []\<rparr>"
      "\<lambda>e ecm. pose_z d_5" Map.empty] h
  show ?thesis
    by (simp add: model_prefix_def map_insert_def AltimeterSensor_init_def pose_z_def)
qed

text \<open>
  Claim C7 does not hold: the resolver has no error to fail with.  Where a model above
  the link has no ParentEntity component the loop's test on the pointer ends the walk,
  and the topic built so far is returned.
\<close>

theorem DefaultTopic_orphan_counterexample:
  "ParentEntity ex_orphan 2 = None \<and> World ex_orphan 2 = None \<and>
   DefaultTopic ex_orphan 5
     = Some (Returns ''/model/robot/model/tool/link/arm/sensor/alt0/altimeter'')"
  by (simp add: ex_orphan_def ex_robot_def DefaultTopic_def topic_loop.simps)

text \<open>Where a model above the link has no Name component, the resolver dereferences the
  null pointer.\<close>

lemma DefaultTopic_unnamed_model:
  "Name ex_unnamed 3 = None \<and> DefaultTopic ex_unnamed 5 = Some NullDereference"
  by (simp add: ex_unnamed_def ex_robot_def DefaultTopic_def topic_loop.simps)

text \<open>
  Claim C7, amended.  For an entity with a name, under a link with a name, under models
  with names of which the outermost has no ParentEntity component (the link itself, if
  there is no model): the resolver dereferences no null pointer and reports no error; it
  returns the topic of the models walked.
\<close>

theorem DefaultTopic_stops_without_parent:
  assumes "Name ecm e = Some sensorName" and "ParentEntity ecm e = Some link"
    and "Name ecm link = Some linkName" and "orphan_chain ecm (ParentEntity ecm link) ns"
  shows "DefaultTopic ecm e = Some (Returns
       (model_prefix ns @ ''/link/'' @ linkName @ ''/sensor/'' @ sensorName @ ''/altimeter''))"
  using assms
  by (simp add: DefaultTopic_def topic_loop_models_above orphan_chain_models_above)

theorem DefaultTopic_stops_without_parent_witness:
  "Name ex_orphan 5 = Some ''alt0'' \<and> ParentEntity ex_orphan 5 = Some 4 \<and>
   Name ex_orphan 4 = Some ''arm'' \<and>
   orphan_chain ex_orphan (ParentEntity ex_orphan 4) [''tool'', ''robot''] \<and>
   DefaultTopic ex_orphan 5
     = Some (Returns ''/model/robot/model/tool/link/arm/sensor/alt0/altimeter'')"
proof -
  have h: "Name ex_orphan 5 = Some ''alt0''" "ParentEntity ex_orphan 5 = Some 4"
    "Name ex_orphan 4 = Some ''arm''"
    "orphan_chain ex_orphan (ParentEntity ex_orphan 4) [''tool'', ''robot'']"
    by (simp_all add: ex_orphan_def ex_robot_def)
  from DefaultTopic_stops_without_parent [OF h] h
  show ?thesis by (simp add: model_prefix_def)
qed

subsection \<open>Rounding\<close>

text \<open>The mantissa that rounding keeps has at most 53 bits, and at least 53 when bits
  were dropped.\<close>

lemma excess_small: "n < 2 ^ 53 \<Longrightarrow> excess n = 0"
  by (subst excess.simps) simp

lemma excess_large: "2 ^ 53 \<le> n \<Longrightarrow> excess n = Suc (excess (n div 2))"
  by (subst excess.simps) simp

lemma excess_div: "n div 2 ^ excess n < 2 ^ 53"
proof (induction n rule: excess.induct)
  case (1 n)
  show ?case
  proof (cases "n < 2 ^ 53")
    case True
    then show ?thesis by (simp add: excess_small)
  next
    case False
    then have "excess n = Suc (excess (n div 2))" by (simp add: excess_large)
    moreover have "n div 2 ^ Suc (excess (n div 2)) = (n div 2) div 2 ^ excess (n div 2)"
      by (simp add: div_mult2_eq)
    ultimately show ?thesis using 1 [OF False] by simp
  qed
qed

lemma excess_lower: "2 ^ 53 \<le> n \<Longrightarrow> 2 ^ 52 \<le> n div 2 ^ excess n"
proof (induction n rule: excess.induct)
  case (1 n)
  have k: "excess n = Suc (excess (n div 2))" using "1.prems" by (simp add: excess_large)
  have d: "n div 2 ^ Suc (excess (n div 2)) = (n div 2) div 2 ^ excess (n div 2)"
    by (simp add: div_mult2_eq)
  show ?case
  proof (cases "n div 2 < 2 ^ 53")
    case True
    then have "excess (n div 2) = 0" by (simp add: excess_small)
    moreover have "2 ^ 52 \<le> n div 2" using "1.prems" by simp
    ultimately show ?thesis by (simp add: k)
  next
    case False
    then have "2 ^ 52 \<le> (n div 2) div 2 ^ excess (n div 2)"
      using "1.IH" "1.prems" by simp
    then show ?thesis by (simp only: k d)
  qed
qed

text \<open>Rounding a natural number to 53 bits: the error is at most half of the last bit
  kept, and at most the number over \<open>2 ^ 53\<close>.\<close>

lemma rounded_nat:
  fixes n :: nat
  defines "k \<equiv> excess n"
  defines "q \<equiv> n div 2 ^ k"
  defines "r \<equiv> n mod 2 ^ k"
  defines "q' \<equiv> (if 2 ^ k < 2 * r \<or> (2 * r = 2 ^ k \<and> odd q) then q + 1 else q)"
  shows "2 ^ 53 * \<bar>int (q' * 2 ^ k) - int n\<bar> \<le> int n" and "q' \<le> 2 ^ 53"
    and "k = 0 \<Longrightarrow> q' = n" and "0 < k \<Longrightarrow> 2 ^ (52 + k) \<le> n"
proof -
  have n: "n = q * 2 ^ k + r" unfolding q_def r_def by (rule div_mult_mod_eq [symmetric])
  have r: "r < 2 ^ k" by (simp add: r_def)
  have q: "q < 2 ^ 53" unfolding q_def k_def by (rule excess_div)
  show "q' \<le> 2 ^ 53" using q by (simp add: q'_def)
  show k0: "q' = n" if "k = 0" using that by (simp add: q'_def q_def r_def)
  show big: "2 ^ (52 + k) \<le> n" if "0 < k"
  proof -
    have "2 ^ 53 \<le> n" using that excess_small [of n] by (auto simp: k_def not_less [symmetric])
    then have "2 ^ 52 \<le> q" unfolding q_def k_def by (rule excess_lower)
    then have "2 ^ 52 * 2 ^ k \<le> q * 2 ^ k" by simp
    also have "\<dots> \<le> n" by (simp add: n)
    finally show ?thesis by (simp add: power_add)
  qed
  have half: "2 * \<bar>int (q' * 2 ^ k) - int n\<bar> \<le> 2 ^ k"
  proof (cases "2 ^ k < 2 * r \<or> (2 * r = 2 ^ k \<and> odd q)")
    case True
    then have "q' = q + 1" by (simp add: q'_def)
    then have "int (q' * 2 ^ k) - int n = 2 ^ k - int r"
      by (simp add: n algebra_simps)
    moreover have "(2::int) ^ k \<le> 2 * int r"
      using True by (metis less_imp_le_nat of_nat_le_iff of_nat_mult of_nat_numeral of_nat_power order_refl)
    moreover have "int r < 2 ^ k" using r by (metis of_nat_less_iff of_nat_numeral of_nat_power)
    ultimately show ?thesis by simp
  next
    case False
    then have "q' = q" by (simp add: q'_def)
    then have "int (q' * 2 ^ k) - int n = - int r" by (simp add: n)
    moreover have "2 * int r \<le> 2 ^ k"
      using False by (metis not_less of_nat_le_iff of_nat_mult of_nat_numeral of_nat_power)
    ultimately show ?thesis by simp
  qed
  show "2 ^ 53 * \<bar>int (q' * 2 ^ k) - int n\<bar> \<le> int n"
  proof (cases "k = 0")
    case True
    then show ?thesis using k0 by simp
  next
    case False
    then have "2 ^ (52 + k) \<le> n" using big by simp
    then have "(2::int) ^ (52 + k) \<le> int n"
      by (metis of_nat_le_iff of_nat_numeral of_nat_power)
    moreover have "2 ^ 53 * \<bar>int (q' * 2 ^ k) - int n\<bar> \<le> 2 ^ 52 * (2::int) ^ k"
      using half by simp
    ultimately show ?thesis by (simp add: power_add)
  qed
qed

lemma excess_zero: "excess n = 0 \<Longrightarrow> n < 2 ^ 53"
  using excess_large [of n] by (cases "n < 2 ^ 53") simp_all

lemma round_error:
  assumes "- 1074 \<le> E" and "E \<le> 971" and "\<bar>M\<bar> * 2 ^ nat (E + 1074) \<le> 2 ^ 2096"
  shows "\<exists>m e. round_nearest_even M E = Finite m e \<and> finite_double (Finite m e) \<and>
     2 ^ 53 * \<bar>scaled (Finite m e) - M * 2 ^ nat (E + 1074)\<bar> \<le> \<bar>M\<bar> * 2 ^ nat (E + 1074)"
proof -
  define n where "n = nat \<bar>M\<bar>"
  define k where "k = excess n"
  define q where "q = n div 2 ^ k"
  define r where "r = n mod 2 ^ k"
  define q' where "q' = (if 2 ^ k < 2 * r \<or> (2 * r = 2 ^ k \<and> odd q) then q + 1 else q)"
  define j where "j = (if q' = 2 ^ 53 then Suc k else k)"
  define m0 where "m0 = (if q' = 2 ^ 53 then 2 ^ 52 else q')"
  define P where "P = nat (E + 1074)"
  note rd = rounded_nat [of n, folded k_def, folded q_def r_def, folded q'_def]
  have "round_nearest_even M E =
      (if 971 < (if q' = 2 ^ 53 then E + int k + 1 else E + int k) then Infinity (M < 0)
       else Finite (sgn M * int (if q' = 2 ^ 53 then 2 ^ 52 else q'))
              (if q' = 2 ^ 53 then E + int k + 1 else E + int k))"
    unfolding round_nearest_even_def Let_def q'_def q_def r_def k_def n_def by (rule refl)
  then have rn: "round_nearest_even M E =
      (if 971 < E + int j then Infinity (M < 0) else Finite (sgn M * int m0) (E + int j))"
    by (cases "q' = 2 ^ 53") (simp_all add: j_def m0_def)
  have M: "M = sgn M * int n" by (simp add: n_def sgn_if)
  have absM: "\<bar>M\<bar> = int n" by (simp add: n_def)
  have m0j: "m0 * 2 ^ j = q' * 2 ^ k" by (simp add: m0_def j_def)
  have m0: "m0 < 2 ^ 53" using rd(2) by (simp add: m0_def)
  have EP: "E + 1074 = int P" using assms(1) by (simp add: P_def)
  have j971: "E + int j \<le> 971"
  proof (cases "k = 0")
    case True
    then have "excess n = 0" by (simp add: k_def)
    then have "n < 2 ^ 53" by (rule excess_zero)
    then have "q' \<noteq> 2 ^ 53" using rd(3) [OF True] by simp
    then show ?thesis using True assms(2) by (simp add: j_def)
  next
    case False
    then have "2 ^ (52 + k) \<le> n" using rd(4) by simp
    then have "2 ^ (52 + k) * 2 ^ P \<le> n * 2 ^ P" by (rule mult_le_mono1)
    moreover have "int (n * 2 ^ P) \<le> 2 ^ 2096"
      using assms(3) by (simp only: absM P_def of_nat_mult of_nat_power of_nat_numeral)
    then have "n * 2 ^ P \<le> 2 ^ 2096"
      by (metis of_nat_le_iff of_nat_numeral of_nat_power)
    ultimately have "2 ^ (52 + k) * 2 ^ P \<le> (2::nat) ^ 2096" by (rule le_trans)
    then have le: "(2::nat) ^ (52 + k + P) \<le> 2 ^ 2096" by (simp only: power_add)
    have "52 + k + P \<le> 2096"
    proof (rule power_le_imp_le_exp)
      show "1 < (2::nat)" by simp
      show "(2::nat) ^ (52 + k + P) \<le> 2 ^ 2096" by (rule le)
    qed
    then show ?thesis using EP by (simp add: j_def)
  qed
  have fin: "finite_double (Finite (sgn M * int m0) (E + int j))"
  proof -
    have "\<bar>sgn M * int m0\<bar> \<le> int m0" by (simp add: abs_mult sgn_if)
    moreover have "int m0 < 2 ^ 53" using m0 by (metis of_nat_less_iff of_nat_numeral of_nat_power)
    ultimately show ?thesis using j971 assms(1) by (simp add: finite_double_def)
  qed
  have sc: "scaled (Finite (sgn M * int m0) (E + int j)) = sgn M * int (q' * 2 ^ k) * 2 ^ P"
  proof -
    have "nat (E + int j + 1074) = P + j" using EP by simp
    then have "scaled (Finite (sgn M * int m0) (E + int j)) = sgn M * int m0 * 2 ^ (P + j)"
      by simp
    also have "\<dots> = sgn M * int (m0 * 2 ^ j) * 2 ^ P" by (simp add: power_add)
    finally show ?thesis by (simp only: m0j)
  qed
  have Mn: "M * 2 ^ P = sgn M * int n * 2 ^ P" by (simp add: n_def mult_sgn_abs)
  have "scaled (Finite (sgn M * int m0) (E + int j)) - M * 2 ^ P
      = sgn M * (int (q' * 2 ^ k) - int n) * 2 ^ P"
    unfolding sc Mn by (simp add: algebra_simps)
  then have "\<bar>scaled (Finite (sgn M * int m0) (E + int j)) - M * 2 ^ P\<bar>
      \<le> \<bar>int (q' * 2 ^ k) - int n\<bar> * 2 ^ P"
    by (simp add: abs_mult sgn_if)
  then have "2 ^ 53 * \<bar>scaled (Finite (sgn M * int m0) (E + int j)) - M * 2 ^ P\<bar>
      \<le> (2 ^ 53 * \<bar>int (q' * 2 ^ k) - int n\<bar>) * 2 ^ P"
    by simp
  also have "\<dots> \<le> int n * 2 ^ P"
    using rd(1) by (intro mult_right_mono) simp_all
  finally have err: "2 ^ 53 * \<bar>scaled (Finite (sgn M * int m0) (E + int j)) - M * 2 ^ nat (E + 1074)\<bar>
      \<le> \<bar>M\<bar> * 2 ^ nat (E + 1074)"
    by (simp only: absM P_def)
  show ?thesis
    using rn j971 fin err by auto
qed

lemma scaled_neg: "scaled (double_neg a) = - scaled a"
  by (cases a) simp_all

lemma finite_double_neg: "finite_double (double_neg a) = finite_double a"
  by (cases a) (simp_all add: finite_double_def)

lemma double_add_error:
  assumes "finite_double a" and "finite_double b" and "\<bar>scaled a + scaled b\<bar> \<le> 2 ^ 2096"
  shows "\<exists>m e. double_add a b = Finite m e \<and> finite_double (Finite m e) \<and>
     2 ^ 53 * \<bar>scaled (Finite m e) - (scaled a + scaled b)\<bar> \<le> \<bar>scaled a + scaled b\<bar>"
proof -
  obtain m1 e1 where a: "a = Finite m1 e1"
    using assms(1) by (cases a) (simp_all add: finite_double_def)
  obtain m2 e2 where b: "b = Finite m2 e2"
    using assms(2) by (cases b) (simp_all add: finite_double_def)
  define E where "E = min e1 e2"
  define M where "M = m1 * 2 ^ nat (e1 - E) + m2 * 2 ^ nat (e2 - E)"
  have E: "- 1074 \<le> E" "E \<le> 971" "E \<le> e1" "E \<le> e2"
    using assms(1,2) by (auto simp add: a b E_def finite_double_def)
  have p1: "nat (e1 - E) + nat (E + 1074) = nat (e1 + 1074)" using E by simp
  have p2: "nat (e2 - E) + nat (E + 1074) = nat (e2 + 1074)" using E by simp
  have "M * 2 ^ nat (E + 1074) =
      m1 * 2 ^ (nat (e1 - E) + nat (E + 1074)) + m2 * 2 ^ (nat (e2 - E) + nat (E + 1074))"
    by (simp add: M_def power_add algebra_simps)
  then have MS: "M * 2 ^ nat (E + 1074) = scaled a + scaled b"
    by (simp only: p1 p2 a b scaled.simps)
  have "\<bar>M * 2 ^ nat (E + 1074)\<bar> = \<bar>M\<bar> * 2 ^ nat (E + 1074)"
    by (simp add: abs_mult)
  then have ab: "\<bar>M\<bar> * 2 ^ nat (E + 1074) = \<bar>scaled a + scaled b\<bar>"
    by (simp only: MS)
  have add: "double_add a b = round_nearest_even M E"
    by (simp add: a b Let_def E_def M_def)
  have "\<bar>M\<bar> * 2 ^ nat (E + 1074) \<le> 2 ^ 2096"
    using assms(3) by (simp only: ab)
  from round_error [OF E(1) E(2) this] show ?thesis
    by (simp only: add MS ab)
qed

lemma two_roundings:
  fixes a b c x y z mx :: int
  assumes "0 \<le> a" and "0 \<le> b" and "9007199254740992 * a \<le> x" and "x \<le> 2 * mx"
    and "y \<le> a + z" and "z \<le> mx" and "9007199254740992 * b \<le> y" and "c \<le> b + a"
  shows "9007199254740992 * c \<le> 4 * mx"
  using assms by linarith

text \<open>Subtracting a reference and adding it again: two roundings, each of at most half a
  unit in the last place.\<close>

lemma round_trip_error:
  assumes "finite_double z" and "finite_double r"
    and "\<bar>scaled z\<bar> \<le> 2 ^ 2094" and "\<bar>scaled r\<bar> \<le> 2 ^ 2094"
  shows "\<exists>m e m' e'. double_sub z r = Finite m e \<and> finite_double (Finite m e) \<and>
     double_add (Finite m e) r = Finite m' e' \<and> finite_double (Finite m' e') \<and>
     2 ^ 52 * \<bar>scaled (Finite m e) + scaled r - scaled z\<bar> \<le> max \<bar>scaled z\<bar> \<bar>scaled r\<bar> \<and>
     2 ^ 51 * \<bar>scaled (Finite m' e') - scaled z\<bar> \<le> max \<bar>scaled z\<bar> \<bar>scaled r\<bar>"
proof -
  define B :: int where "B = 2 ^ 2094"
  define Sz where "Sz = scaled z"
  define Sr where "Sr = scaled r"
  define Mx where "Mx = max \<bar>Sz\<bar> \<bar>Sr\<bar>"
  have B: "(2::int) ^ 2096 = 4 * B" by (simp add: B_def)
  have B0: "0 \<le> B" by (simp add: B_def)
  have Mx: "\<bar>Sz\<bar> \<le> Mx" "\<bar>Sr\<bar> \<le> Mx" "Mx \<le> B"
    using assms(3,4) by (simp_all add: Mx_def Sz_def Sr_def B_def)
  have X: "\<bar>Sz - Sr\<bar> \<le> 2 * Mx" using Mx by linarith
  have "\<bar>scaled z + scaled (double_neg r)\<bar> \<le> 4 * B"
    using X Mx B0 by (simp add: scaled_neg Sz_def Sr_def)
  then have "\<bar>scaled z + scaled (double_neg r)\<bar> \<le> 2 ^ 2096" by (simp only: B)
  from double_add_error [OF assms(1) _ this]
  obtain m e where d: "double_sub z r = Finite m e" "finite_double (Finite m e)"
    and de: "2 ^ 53 * \<bar>scaled (Finite m e) - (Sz - Sr)\<bar> \<le> \<bar>Sz - Sr\<bar>"
    by (auto simp add: double_sub_def finite_double_neg assms(2) scaled_neg Sz_def Sr_def)
  define D where "D = scaled (Finite m e)"
  define a where "a = \<bar>D - (Sz - Sr)\<bar>"
  have a0: "0 \<le> a" by (simp add: a_def)
  have de': "9007199254740992 * a \<le> \<bar>Sz - Sr\<bar>"
    using de by (simp add: D_def a_def)
  have DX: "a \<le> Mx" using de' X a0 by linarith
  have "\<bar>D + Sr\<bar> \<le> \<bar>D - (Sz - Sr)\<bar> + \<bar>Sz\<bar>" by linarith
  then have Y: "\<bar>D + Sr\<bar> \<le> a + \<bar>Sz\<bar>" by (simp only: a_def)
  then have "\<bar>D + Sr\<bar> \<le> 4 * B" using DX Mx B0 by linarith
  then have "\<bar>scaled (Finite m e) + scaled r\<bar> \<le> 2 ^ 2096" by (simp only: B D_def Sr_def)
  from double_add_error [OF d(2) assms(2) this]
  obtain m' e' where s: "double_add (Finite m e) r = Finite m' e'" "finite_double (Finite m' e')"
    and se: "2 ^ 53 * \<bar>scaled (Finite m' e') - (D + Sr)\<bar> \<le> \<bar>D + Sr\<bar>"
    by (auto simp add: D_def Sr_def)
  define S where "S = scaled (Finite m' e')"
  define b where "b = \<bar>S - (D + Sr)\<bar>"
  have b0: "0 \<le> b" by (simp add: b_def)
  have se': "9007199254740992 * b \<le> \<bar>D + Sr\<bar>"
    using se by (simp add: S_def b_def)
  have "\<bar>S - Sz\<bar> \<le> \<bar>S - (D + Sr)\<bar> + \<bar>D - (Sz - Sr)\<bar>" by linarith
  then have c: "\<bar>S - Sz\<bar> \<le> b + a" by (simp only: a_def b_def)
  have "9007199254740992 * \<bar>S - Sz\<bar> \<le> 4 * Mx"
    using a0 b0 de' X Y Mx(1) se' c by (rule two_roundings)
  then have e1: "2 ^ 51 * \<bar>S - Sz\<bar> \<le> Mx" by simp
  have "\<bar>D + Sr - Sz\<bar> = a" by (simp add: a_def)
  then have "9007199254740992 * \<bar>D + Sr - Sz\<bar> \<le> 2 * Mx"
    using order_trans [OF de' X] by simp
  then have e2: "2 ^ 52 * \<bar>D + Sr - Sz\<bar> \<le> Mx" by simp
  show ?thesis
    using d s e1 e2 unfolding S_def D_def Mx_def Sz_def Sr_def by blast
qed


subsection \<open>The reading\<close>

lemma update_visitor_lookup:
  "fst (update_visitor e wp lv m) x =
     (if x = e then map_option (reading wp lv) (m e) else m x)"
  by (auto simp: update_visitor_def reading_def Let_def split: option.splits)

lemma fst_UpdateAltimeters_loop_Cons:
  "fst (UpdateAltimeters_loop ecm f (a # es) m) =
     (case (Altimeter ecm a, WorldPose ecm a, WorldLinearVelocity ecm a) of
        (Some altimeter, Some wp, Some lv) \<Rightarrow>
          fst (UpdateAltimeters_loop ecm f es (fst (f a wp lv m)))
      | _ \<Rightarrow> fst (UpdateAltimeters_loop ecm f es m))"
  by (simp split: option.splits prod.splits)

lemma reading_idem [simp]: "reading wp lv (reading wp lv s) = reading wp lv s"
  by (simp add: reading_def)

lemma UpdateAltimeters_loop_lookup:
  "fst (UpdateAltimeters_loop ecm update_visitor es m) x =
     (case (Altimeter ecm x, WorldPose ecm x, WorldLinearVelocity ecm x) of
        (Some altimeter, Some wp, Some lv) \<Rightarrow>
          if x \<in> set es then map_option (reading wp lv) (m x) else m x
      | _ \<Rightarrow> m x)"
proof (induction es arbitrary: m)
  case Nil
  then show ?case by (simp split: option.splits)
next
  case (Cons a es)
  show ?case
    unfolding fst_UpdateAltimeters_loop_Cons
    by (cases "m x")
       (auto simp: Cons.IH update_visitor_lookup split: option.splits)
qed

lemma Publish_fields:
  "topic (fst (Publish s)) = topic s" "verticalPosition (fst (Publish s)) = verticalPosition s"
  "verticalVelocity (fst (Publish s)) = verticalVelocity s"
  "verticalReference (fst (Publish s)) = verticalReference s"
  by (simp_all add: Publish_def)

lemma Publish_idem: "fst (Publish (fst (Publish s))) = fst (Publish s)"
  by (simp add: Publish_def)

lemma Publish_messages:
  "snd (snd (Publish s)) = (if topic s = [] then [] else [message_of s])"
  by (simp add: Publish_def message_of_def)

lemma fst_Publish_all_Cons:
  "fst (Publish_all (k # ks) m) =
     (case m k of
        None \<Rightarrow> fst (Publish_all ks m)
      | Some s \<Rightarrow> fst (Publish_all ks (m(k \<mapsto> fst (Publish s)))))"
  by (simp split: option.splits prod.splits)

lemma Publish_all_Cons_messages:
  "snd (snd (Publish_all (k # ks) m)) =
     (case m k of
        None \<Rightarrow> snd (snd (Publish_all ks m))
      | Some s \<Rightarrow> snd (snd (Publish s)) @ snd (snd (Publish_all ks (m(k \<mapsto> fst (Publish s))))))"
  by (simp split: option.splits prod.splits)

lemma Publish_all_lookup:
  "fst (Publish_all ks m) x =
     (if x \<in> set ks then map_option (\<lambda>s. fst (Publish s)) (m x) else m x)"
proof (induction ks arbitrary: m x)
  case Nil
  then show ?case by simp
next
  case (Cons k ks)
  show ?case
    unfolding fst_Publish_all_Cons
    by (cases "m x") (auto simp: Cons.IH Publish_idem split: option.splits)
qed

lemma message_of_Publish: "message_of (fst (Publish s)) = message_of s"
  by (simp add: message_of_def Publish_fields)

lemma Publish_all_messages:
  "e \<in> set ks \<Longrightarrow> m e = Some s \<Longrightarrow> topic s \<noteq> [] \<Longrightarrow>
     message_of s \<in> set (snd (snd (Publish_all ks m)))"
proof (induction ks arbitrary: m s)
  case Nil
  then show ?case by simp
next
  case (Cons k ks)
  show ?case
  proof (cases "k = e")
    case True
    then show ?thesis
      unfolding Publish_all_Cons_messages using Cons.prems
      by (simp add: Publish_messages)
  next
    case False
    then have e: "e \<in> set ks" using Cons.prems(1) by simp
    show ?thesis
    proof (cases "m k")
      case None
      then show ?thesis
        unfolding Publish_all_Cons_messages
        using Cons.IH [of m s, OF e Cons.prems(2) Cons.prems(3)] by simp
    next
      case (Some s')
      have "(m(k \<mapsto> fst (Publish s'))) e = Some s" using False Cons.prems(2) by simp
      then have "message_of s \<in> set (snd (snd (Publish_all ks (m(k \<mapsto> fst (Publish s'))))))"
        using e Cons.prems(3) by (rule_tac Cons.IH)
      then show ?thesis
        unfolding Publish_all_Cons_messages by (simp add: Some)
    qed
  qed
qed

lemma moderate_round_trip:
  assumes "moderate z" and "moderate r"
  shows "finite_double (double_sub z r) \<and> finite_double (double_add (double_sub z r) r) \<and>
     2 ^ 52 * \<bar>scaled (double_sub z r) + scaled r - scaled z\<bar> \<le> max \<bar>scaled z\<bar> \<bar>scaled r\<bar> \<and>
     2 ^ 51 * \<bar>scaled (double_add (double_sub z r) r) - scaled z\<bar> \<le> max \<bar>scaled z\<bar> \<bar>scaled r\<bar>"
proof -
  have "finite_double z" "finite_double r" "\<bar>scaled z\<bar> \<le> 2 ^ 2094" "\<bar>scaled r\<bar> \<le> 2 ^ 2094"
    using assms unfolding moderate_def by blast+
  from round_trip_error [OF this] show ?thesis by metis
qed

text \<open>
  Claim C1, amended.  For an entity of the manager that has an Altimeter, a WorldPose and
  a WorldLinearVelocity component and a sensor in the map, a PostUpdate that is not paused
  leaves the sensor with its vertical position the double nearest to the world pose's Z
  minus its vertical reference, with its vertical velocity the world linear velocity's Z
  and with its reference and topic as they were, and publishes these values on the
  topic when it is not empty.  When the world pose's Z and the reference are finite and of
  magnitude at most \<open>2 ^ 1020\<close>, the published position and its sum with the reference
  are finite; the position plus the reference differs from the world pose's Z by at most
  \<open>2 ^ - 52\<close> times the larger of the magnitudes of Z and of the reference, and their sum
  in double precision by at most \<open>2 ^ - 51\<close> times it.
\<close>

theorem PostUpdate_reading:
  assumes "\<not> paused info" and "e \<in> set (entities ecm)"
    and "Altimeter ecm e = Some altimeter" and "WorldPose ecm e = Some worldPose"
    and "WorldLinearVelocity ecm e = Some worldLinearVel"
    and "entitySensorMap this e = Some sensor"
    and "iterates order (entitySensorMap this)"
  shows "\<exists>sensor'. entitySensorMap (fst (PostUpdate order info ecm this)) e = Some sensor' \<and>
     verticalPosition sensor' = double_sub (Z (Pos worldPose)) (verticalReference sensor) \<and>
     verticalVelocity sensor' = Z worldLinearVel \<and>
     verticalReference sensor' = verticalReference sensor \<and>
     topic sensor' = topic sensor \<and>
     (topic sensor \<noteq> [] \<longrightarrow>
        message_of sensor' \<in> set (snd (snd (PostUpdate order info ecm this)))) \<and>
     (moderate (Z (Pos worldPose)) \<and> moderate (verticalReference sensor) \<longrightarrow>
        finite_double (verticalPosition sensor') \<and>
        finite_double (double_add (verticalPosition sensor') (verticalReference sensor')) \<and>
        2 ^ 52 * \<bar>scaled (verticalPosition sensor') + scaled (verticalReference sensor')
                  - scaled (Z (Pos worldPose))\<bar>
          \<le> max \<bar>scaled (Z (Pos worldPose))\<bar> \<bar>scaled (verticalReference sensor)\<bar> \<and>
        2 ^ 51 * \<bar>scaled (double_add (verticalPosition sensor') (verticalReference sensor'))
                  - scaled (Z (Pos worldPose))\<bar>
          \<le> max \<bar>scaled (Z (Pos worldPose))\<bar> \<bar>scaled (verticalReference sensor)\<bar>)"
proof -
  let ?r = "reading worldPose worldLinearVel sensor"
  obtain m out where u:
    "UpdateAltimeters_loop ecm update_visitor (entities ecm) (entitySensorMap this) = (m, out)"
    by (cases "UpdateAltimeters_loop ecm update_visitor (entities ecm) (entitySensorMap this)")
  have l: "m e = Some ?r"
    using UpdateAltimeters_loop_lookup [of ecm "entities ecm" "entitySensorMap this" e] assms u
    by simp
  have o: "e \<in> set order"
    using assms(6,7) by (auto simp: iterates_def)
  obtain m' out' msgs where p: "Publish_all order m = (m', out', msgs)"
    by (cases "Publish_all order m")
  have post: "PostUpdate order info ecm this = (this\<lparr>entitySensorMap := m'\<rparr>, out @ out', msgs)"
    using assms(1) u p by (simp add: PostUpdate_def UpdateAltimeters_def)
  have l': "m' e = Some (fst (Publish ?r))"
    using Publish_all_lookup [of order m e] p l o by simp
  have msg: "topic sensor \<noteq> [] \<longrightarrow> message_of (fst (Publish ?r)) \<in> set msgs"
    using Publish_all_messages [of e order m ?r, OF o l] p
    by (simp add: reading_def message_of_Publish)
  have f: "verticalPosition (fst (Publish ?r))
        = double_sub (Z (Pos worldPose)) (verticalReference sensor)"
    "verticalVelocity (fst (Publish ?r)) = Z worldLinearVel"
    "verticalReference (fst (Publish ?r)) = verticalReference sensor"
    "topic (fst (Publish ?r)) = topic sensor"
    by (simp_all add: Publish_fields reading_def)
  have b: "moderate (Z (Pos worldPose)) \<and> moderate (verticalReference sensor) \<longrightarrow>
      finite_double (verticalPosition (fst (Publish ?r))) \<and>
      finite_double (double_add (verticalPosition (fst (Publish ?r)))
        (verticalReference (fst (Publish ?r)))) \<and>
      2 ^ 52 * \<bar>scaled (verticalPosition (fst (Publish ?r)))
                + scaled (verticalReference (fst (Publish ?r))) - scaled (Z (Pos worldPose))\<bar>
        \<le> max \<bar>scaled (Z (Pos worldPose))\<bar> \<bar>scaled (verticalReference sensor)\<bar> \<and>
      2 ^ 51 * \<bar>scaled (double_add (verticalPosition (fst (Publish ?r)))
                  (verticalReference (fst (Publish ?r)))) - scaled (Z (Pos worldPose))\<bar>
        \<le> max \<bar>scaled (Z (Pos worldPose))\<bar> \<bar>scaled (verticalReference sensor)\<bar>"
    unfolding f using moderate_round_trip by blast
  have "entitySensorMap (fst (PostUpdate order info ecm this)) e = Some (fst (Publish ?r))"
    "snd (snd (PostUpdate order info ecm this)) = msgs"
    by (simp_all add: post l')
  then show ?thesis
    using f msg b by (intro exI [of _ "fst (Publish ?r)"]) (simp only: simp_thms)
qed


text \<open>The run at a given height and reference, with the subtraction left as it is; then
  the subtraction and the addition at the doubles of the instances.\<close>

lemma excess_numeral:
  "excess (numeral v) = (if (numeral v :: nat) < 2 ^ 53 then 0 else Suc (excess (numeral v div 2)))"
  by (rule excess.simps)

lemma sub_0_1: "double_sub d_0_1 d_5 = Finite (- 5516909543528858) (- 50)"
  by (simp add: double_sub_def d_0_1_def d_5_def round_nearest_even_def excess_numeral Let_def)

lemma add_back_0_1:
  "double_add (Finite (- 5516909543528858) (- 50)) d_5 = Finite 112589990684262 (- 50)"
  by (simp add: d_5_def round_nearest_even_def excess_numeral Let_def)

lemma sub_high_low: "double_sub d_high d_low = Infinity False"
  by (simp add: double_sub_def d_high_def d_low_def round_nearest_even_def excess_numeral Let_def)

lemma PostUpdate_ex_robot:
  "PostUpdate [5] (tick 1000000 False) (ex_robot z) (ex_altimeter r) =
     (\<lparr>initialized = True,
       entitySensorMap = [5 \<mapsto> \<lparr>topic = ex_topic,
          verticalPosition = double_sub z r,
          verticalVelocity = Finite 3 (- 1), verticalReference = r, pub = True\<rparr>]\<rparr>,
      [Msg (''Altimeter publishing messages on ['' @ ex_topic @ '']'')],
      [\<lparr>on_topic = ex_topic, vertical_position = double_sub z r,
        vertical_velocity = Finite 3 (- 1), vertical_reference = r\<rparr>])"
  by (simp add: tick_def ex_robot_def ex_altimeter_def pose_z_def
      PostUpdate_def UpdateAltimeters_def update_visitor_def
      Publish_def ex_topic_def Let_def)

theorem PostUpdate_reading_witness:
  "\<not> paused (tick 1000000 False) \<and> 5 \<in> set (entities (ex_robot d_0_1)) \<and>
   Altimeter (ex_robot d_0_1) 5 = Some \<lparr>HasElement_topic = False, Get_topic = []\<rparr> \<and>
   WorldPose (ex_robot d_0_1) 5 = Some (pose_z d_0_1) \<and>
   WorldLinearVelocity (ex_robot d_0_1) 5
     = Some \<lparr>X = double_zero, Y = double_zero, Z = Finite 3 (- 1)\<rparr> \<and>
   entitySensorMap (ex_altimeter d_5) 5 = Some \<lparr>topic = ex_topic,
     verticalPosition = double_zero, verticalVelocity = double_zero,
     verticalReference = d_5, pub = False\<rparr> \<and>
   iterates [5] (entitySensorMap (ex_altimeter d_5)) \<and>
   moderate d_0_1 \<and> moderate d_5 \<and>
   PostUpdate [5] (tick 1000000 False) (ex_robot d_0_1) (ex_altimeter d_5) =
     (\<lparr>initialized = True,
       entitySensorMap = [5 \<mapsto> \<lparr>topic = ex_topic,
          verticalPosition = Finite (- 5516909543528858) (- 50),
          verticalVelocity = Finite 3 (- 1), verticalReference = d_5, pub = True\<rparr>]\<rparr>,
      [Msg (''Altimeter publishing messages on ['' @ ex_topic @ '']'')],
      [\<lparr>on_topic = ex_topic, vertical_position = Finite (- 5516909543528858) (- 50),
        vertical_velocity = Finite 3 (- 1), vertical_reference = d_5\<rparr>]) \<and>
   double_add (Finite (- 5516909543528858) (- 50)) d_5 = Finite 112589990684262 (- 50) \<and>
   2 ^ 52 * \<bar>scaled (Finite (- 5516909543528858) (- 50)) + scaled d_5 - scaled d_0_1\<bar>
     \<le> max \<bar>scaled d_0_1\<bar> \<bar>scaled d_5\<bar> \<and>
   2 ^ 51 * \<bar>scaled (Finite 112589990684262 (- 50)) - scaled d_0_1\<bar>
     \<le> max \<bar>scaled d_0_1\<bar> \<bar>scaled d_5\<bar>"
proof -
  have h: "\<not> paused (tick 1000000 False)" "5 \<in> set (entities (ex_robot d_0_1))"
    "Altimeter (ex_robot d_0_1) 5 = Some \<lparr>HasElement_topic = False, Get_topic = []\<rparr>"
    "WorldPose (ex_robot d_0_1) 5 = Some (pose_z d_0_1)"
    "WorldLinearVelocity (ex_robot d_0_1) 5
       = Some \<lparr>X = double_zero, Y = double_zero, Z = Finite 3 (- 1)\<rparr>"
    "entitySensorMap (ex_altimeter d_5) 5 = Some \<lparr>topic = ex_topic,
       verticalPosition = double_zero, verticalVelocity = double_zero,
       verticalReference = d_5, pub = False\<rparr>"
    "iterates [5] (entitySensorMap (ex_altimeter d_5))"
    by (simp_all add: tick_def ex_robot_def ex_altimeter_def iterates_def)
  have x: "moderate d_0_1" "moderate d_5"
    by (simp_all add: moderate_def finite_double_def d_0_1_def d_5_def)
  have p: "PostUpdate [5] (tick 1000000 False) (ex_robot d_0_1) (ex_altimeter d_5) =
     (\<lparr>initialized = True,
       entitySensorMap = [5 \<mapsto> \<lparr>topic = ex_topic,
          verticalPosition = Finite (- 5516909543528858) (- 50),
          verticalVelocity = Finite 3 (- 1), verticalReference = d_5, pub = True\<rparr>]\<rparr>,
      [Msg (''Altimeter publishing messages on ['' @ ex_topic @ '']'')],
      [\<lparr>on_topic = ex_topic, vertical_position = Finite (- 5516909543528858) (- 50),
        vertical_velocity = Finite 3 (- 1), vertical_reference = d_5\<rparr>])"
    by (simp add: PostUpdate_ex_robot sub_0_1)
  from PostUpdate_reading [OF h] x
  have "2 ^ 52 * \<bar>scaled (Finite (- 5516909543528858) (- 50)) + scaled d_5 - scaled d_0_1\<bar>
       \<le> max \<bar>scaled d_0_1\<bar> \<bar>scaled d_5\<bar> \<and>
     2 ^ 51 * \<bar>scaled (double_add (Finite (- 5516909543528858) (- 50)) d_5) - scaled d_0_1\<bar>
       \<le> max \<bar>scaled d_0_1\<bar> \<bar>scaled d_5\<bar>"
    by (simp add: p pose_z_def sub_0_1)
  with h x p show ?thesis by (simp add: add_back_0_1)
qed

text \<open>
  Claim C1 does not hold at every height.  With the world pose's Z at \<open>2 ^ 1023\<close> and the
  reference at \<open>- 2 ^ 1023\<close>, both finite, the difference overflows: the position
  published is the positive infinity, and its sum with the reference is the positive
  infinity, which is not the world pose's Z.
\<close>

theorem PostUpdate_overflow_counterexample:
  "\<not> paused (tick 1000000 False) \<and> 5 \<in> set (entities (ex_robot d_high)) \<and>
   Altimeter (ex_robot d_high) 5 = Some \<lparr>HasElement_topic = False, Get_topic = []\<rparr> \<and>
   WorldPose (ex_robot d_high) 5 = Some (pose_z d_high) \<and> Z (Pos (pose_z d_high)) = d_high \<and>
   WorldLinearVelocity (ex_robot d_high) 5
     = Some \<lparr>X = double_zero, Y = double_zero, Z = Finite 3 (- 1)\<rparr> \<and>
   entitySensorMap (ex_altimeter d_low) 5 = Some \<lparr>topic = ex_topic,
     verticalPosition = double_zero, verticalVelocity = double_zero,
     verticalReference = d_low, pub = False\<rparr> \<and>
   iterates [5] (entitySensorMap (ex_altimeter d_low)) \<and>
   finite_double d_high \<and> finite_double d_low \<and>
   PostUpdate [5] (tick 1000000 False) (ex_robot d_high) (ex_altimeter d_low) =
     (\<lparr>initialized = True,
       entitySensorMap = [5 \<mapsto> \<lparr>topic = ex_topic,
          verticalPosition = Infinity False,
          verticalVelocity = Finite 3 (- 1), verticalReference = d_low, pub = True\<rparr>]\<rparr>,
      [Msg (''Altimeter publishing messages on ['' @ ex_topic @ '']'')],
      [\<lparr>on_topic = ex_topic, vertical_position = Infinity False,
        vertical_velocity = Finite 3 (- 1), vertical_reference = d_low\<rparr>]) \<and>
   double_add (Infinity False) d_low = Infinity False \<and>
   \<not> double_eq (Infinity False) d_high"
proof -
  have h: "\<not> paused (tick 1000000 False)" "5 \<in> set (entities (ex_robot d_high))"
    "Altimeter (ex_robot d_high) 5 = Some \<lparr>HasElement_topic = False, Get_topic = []\<rparr>"
    "WorldPose (ex_robot d_high) 5 = Some (pose_z d_high)" "Z (Pos (pose_z d_high)) = d_high"
    "WorldLinearVelocity (ex_robot d_high) 5
       = Some \<lparr>X = double_zero, Y = double_zero, Z = Finite 3 (- 1)\<rparr>"
    "entitySensorMap (ex_altimeter d_low) 5 = Some \<lparr>topic = ex_topic,
       verticalPosition = double_zero, verticalVelocity = double_zero,
       verticalReference = d_low, pub = False\<rparr>"
    "iterates [5] (entitySensorMap (ex_altimeter d_low))"
    by (simp_all add: tick_def ex_robot_def ex_altimeter_def iterates_def pose_z_def)
  have x: "finite_double d_high" "finite_double d_low"
    "double_add (Infinity False) d_low = Infinity False"
    "\<not> double_eq (Infinity False) d_high"
    by (simp_all add: finite_double_def d_high_def d_low_def)
  have p: "PostUpdate [5] (tick 1000000 False) (ex_robot d_high) (ex_altimeter d_low) =
     (\<lparr>initialized = True,
       entitySensorMap = [5 \<mapsto> \<lparr>topic = ex_topic,
          verticalPosition = Infinity False,
          verticalVelocity = Finite 3 (- 1), verticalReference = d_low, pub = True\<rparr>]\<rparr>,
      [Msg (''Altimeter publishing messages on ['' @ ex_topic @ '']'')],
      [\<lparr>on_topic = ex_topic, vertical_position = Infinity False,
        vertical_velocity = Finite 3 (- 1), vertical_reference = d_low\<rparr>])"
    by (simp add: PostUpdate_ex_robot sub_high_low)
  from h x p show ?thesis by simp
qed

end
